theory Spec2Isabelle
  imports Main "HOL-Library.Word" "HOL-Library.Char_ord" "HOL-Library.List_Lexorder"
begin

section \<open>Text and bytes\<close>

text \<open>
  File contents are Python \<open>bytes\<close>: lists of 8-bit words.  A Python \<open>str\<close> is
  modelled as \<open>string\<close>, the list of the bytes of its UTF-8 encoding, which is also
  how SQLite stores and compares it.
\<close>

type_synonym byte = "8 word"
type_synonym bytes = "byte list"

text \<open>\<open>s.startswith(p)\<close> and \<open>needle in hay\<close> (substring test) of Python.\<close>

fun startswith :: "'a list \<Rightarrow> 'a list \<Rightarrow> bool" where
  "startswith s [] = True"
| "startswith [] (p # ps) = False"
| "startswith (c # cs) (p # ps) = (c = p \<and> startswith cs ps)"

fun contains :: "'a list \<Rightarrow> 'a list \<Rightarrow> bool" where
  "contains [] needle = (needle = [])"
| "contains (c # cs) needle = (startswith (c # cs) needle \<or> contains cs needle)"

fun endswith :: "'a list \<Rightarrow> 'a list \<Rightarrow> bool" where
  "endswith s p = startswith (rev s) (rev p)"

definition ascii_lower :: "char \<Rightarrow> char" where
  "ascii_lower c =
     (if CHR ''A'' \<le> c \<and> c \<le> CHR ''Z'' then char_of (of_char c + (32::nat)) else c)"

text \<open>
  The lower-casing of ASCII letters only: SQLite's \<open>LOWER\<close>, and what
  \<open>str.lower\<close> does on ASCII text.  On other text \<open>str.lower\<close> follows the
  Unicode database of the interpreter; it is a parameter of the model (\<open>str_lower\<close>
  below).
\<close>

definition lower_ascii :: "string \<Rightarrow> string" where
  "lower_ascii s = map ascii_lower s"

text \<open>
  The characters \<open>str.strip()\<close> removes, those for which \<open>str.isspace\<close> holds,
  in UTF-8: U+0009 to U+000D, U+001C to U+0020, U+0085, U+00A0, U+1680, U+2000 to
  U+200A, U+2028, U+2029, U+202F, U+205F and U+3000.
\<close>

definition whitespace :: "string list" where
  "whitespace =
     map (\<lambda>c. [c]) [CHR 0x09, CHR 0x0A, CHR 0x0B, CHR 0x0C, CHR 0x0D,
                    CHR 0x1C, CHR 0x1D, CHR 0x1E, CHR 0x1F, CHR 0x20]
     @ [[CHR 0xC2, CHR 0x85], [CHR 0xC2, CHR 0xA0], [CHR 0xE1, CHR 0x9A, CHR 0x80]]
     @ map (\<lambda>c. [CHR 0xE2, CHR 0x80, c])
         [CHR 0x80, CHR 0x81, CHR 0x82, CHR 0x83, CHR 0x84, CHR 0x85, CHR 0x86, CHR 0x87,
          CHR 0x88, CHR 0x89, CHR 0x8A, CHR 0xA8, CHR 0xA9, CHR 0xAF]
     @ [[CHR 0xE2, CHR 0x81, CHR 0x9F], [CHR 0xE3, CHR 0x80, CHR 0x80]]"

text \<open>
  The length of the first of the given prefixes the text starts with (0: it starts with
  none), and the text without every such prefix at its start.
\<close>

definition prefix_width :: "string list \<Rightarrow> string \<Rightarrow> nat" where
  "prefix_width ws s = (case find (\<lambda>w. startswith s w) ws of Some w \<Rightarrow> length w | None \<Rightarrow> 0)"

fun drop_prefixes :: "string list \<Rightarrow> string \<Rightarrow> string" where
  "drop_prefixes ws [] = []"
| "drop_prefixes ws (c # cs) =
     (case prefix_width ws (c # cs) of
        0 \<Rightarrow> c # cs
      | Suc n \<Rightarrow> drop_prefixes ws (drop n cs))"

definition strip :: "string \<Rightarrow> string" where
  "strip s = rev (drop_prefixes (map rev whitespace) (rev (drop_prefixes whitespace s)))"

text \<open>\<open>s.replace(a, b)\<close> for one-character \<open>a\<close> and \<open>b\<close>.\<close>

definition replace_char :: "char \<Rightarrow> char \<Rightarrow> string \<Rightarrow> string" where
  "replace_char a b s = map (\<lambda>c. if c = a then b else c) s"

definition apostrophe :: string where
  "apostrophe = [CHR 0x27]"

definition newline :: string where
  "newline = [CHR 0x0A]"

section \<open>The file system seen by the manager\<close>

text \<open>
  A path names a regular file with its content, a directory with the paths of its
  children as \<open>Path.iterdir()\<close> yields them, or a file at which \<open>open()\<close> raises
  an \<open>OSError\<close> with the given text (permission denied, device error).
\<close>

datatype node = RegularFile bytes | Directory "string list" | Unreadable string

type_synonym filesystem = "string \<rightharpoonup> node"

definition path_exists :: "filesystem \<Rightarrow> string \<Rightarrow> bool" where
  "path_exists fs p = (fs p \<noteq> None)"

definition is_file :: "filesystem \<Rightarrow> string \<Rightarrow> bool" where
  "is_file fs p = (case fs p of Some (RegularFile b) \<Rightarrow> True | Some (Unreadable e) \<Rightarrow> True | _ \<Rightarrow> False)"

text \<open>\<open>open(p, "rb")\<close> followed by \<open>f.read(n)\<close>: the exception text on the left.\<close>

definition open_read :: "filesystem \<Rightarrow> string \<Rightarrow> nat \<Rightarrow> string + bytes" where
  "open_read fs p n =
     (case fs p of
        None \<Rightarrow> Inl (''[Errno 2] No such file or directory: '' @ apostrophe @ p @ apostrophe)
      | Some (Directory cs) \<Rightarrow> Inl (''[Errno 21] Is a directory: '' @ apostrophe @ p @ apostrophe)
      | Some (Unreadable e) \<Rightarrow> Inl e
      | Some (RegularFile b) \<Rightarrow> Inr (take n b))"

section \<open>Format sniffer\<close>

definition sig_BAB :: bytes where "sig_BAB = [0x42, 0x41, 0x42]"
definition sig_hFarsi :: bytes where "sig_hFarsi = [0x68, 0x46, 0x61, 0x72, 0x73, 0x69]"
definition sig_Aryanpur :: bytes where
  "sig_Aryanpur = [0x41, 0x72, 0x79, 0x61, 0x6E, 0x70, 0x75, 0x72]"
definition sig_BGL :: bytes where "sig_BGL = [0x42, 0x47, 0x4C]"
definition sig_gzip :: bytes where "sig_gzip = [0x1F, 0x8B]"

definition standard_header :: "bytes \<Rightarrow> bool" where
  "standard_header header = (startswith header [0x00, 0x01] \<or> startswith header [0x01, 0x00])"

definition msg_unencrypted :: string where
  "msg_unencrypted = ''Unencrypted BGL detected''"
definition msg_encrypted :: string where
  "msg_encrypted = ''ENCRYPTED: Commercial Babylon dictionary (DRM protected)''"
definition msg_likely :: string where
  "msg_likely = ''LIKELY ENCRYPTED: Persian commercial dictionary (Aryanpur/hFarsi)''"
definition msg_unknown :: string where
  "msg_unknown = ''Unknown format - may be unencrypted''"

text \<open>The body of \<open>_is_encrypted_bgl\<close> once the 32-byte header has been read.\<close>

definition check_header :: "bytes \<Rightarrow> bool \<times> string" where
  "check_header header =
     (if startswith header [0x00, 0x01] \<or> startswith header [0x01, 0x00]
      then (False, msg_unencrypted)
      else if contains header sig_BAB
              \<or> contains (take 4 header) [0xFF, 0xFE]
              \<or> contains (take 4 header) [0xFE, 0xFF]
      then (True, msg_encrypted)
      else if list_ex (\<lambda>sig. contains header sig) [sig_hFarsi, sig_Aryanpur, sig_BGL, sig_gzip]
      then (if \<not> (startswith header [0x00, 0x01] \<or> startswith header [0x01, 0x00])
            then (True, msg_likely)
            else (False, msg_unknown))
      else (False, msg_unknown))"

definition is_encrypted_bgl :: "filesystem \<Rightarrow> string \<Rightarrow> bool \<times> string" where
  "is_encrypted_bgl fs file_path =
     (case open_read fs file_path 32 of
        Inr header \<Rightarrow> check_header header
      | Inl e \<Rightarrow> (False, ''Error checking header: '' @ e))"

text \<open>
  The sniffer's contract in the specification, \<open>sniff(path) -> {Clear,
  LikelyEncrypted(reason), Encrypted(reason)}\<close>, and its four ordered rules in the
  specification's words; \<open>verdict\<close> reads the pair the code returns as such a class.
\<close>

datatype sniff = Clear string | LikelyEncrypted string | Encrypted string

definition verdict :: "bool \<times> string \<Rightarrow> sniff" where
  "verdict r =
     (if \<not> fst r then Clear (snd r)
      else if startswith (snd r) ''LIKELY'' then LikelyEncrypted (snd r)
      else Encrypted (snd r))"

definition vendor_or_bom :: "bytes \<Rightarrow> bool" where
  "vendor_or_bom h =
     (contains h sig_BAB \<or> contains (take 4 h) [0xFF, 0xFE] \<or> contains (take 4 h) [0xFE, 0xFF])"

definition vendor_fragment :: "bytes \<Rightarrow> bool" where
  "vendor_fragment h =
     (contains h sig_hFarsi \<or> contains h sig_Aryanpur \<or> contains h sig_BGL \<or> contains h sig_gzip)"

definition sniff_rules :: "bytes \<Rightarrow> sniff" where
  "sniff_rules h =
     (if standard_header h then Clear msg_unencrypted
      else if vendor_or_bom h then Encrypted msg_encrypted
      else if vendor_fragment h then LikelyEncrypted msg_likely
      else Clear msg_unknown)"

section \<open>The persisted store\<close>

text \<open>
  The four tables of \<open>_init_db\<close>, each a list of rows in rowid order, and the
  \<open>sqlite_sequence\<close> counters of the \<open>AUTOINCREMENT\<close> keys.  The column
  \<open>dictionaries.created_at\<close> is never read by the program and is left out.  The
  program never issues \<open>PRAGMA foreign_keys = ON\<close>, so SQLite does not enforce the
  \<open>FOREIGN KEY\<close> clauses of the schema: deleting a dictionary row leaves the rows
  that refer to it as they are.
\<close>

record dictionary_row =
  dictionary_id :: int
  dictionary_name :: string
  source_path :: string
  word_count :: int
  is_encrypted :: bool

record entry_row =
  entry_id :: int
  entry_dictionary_id :: int
  entry_word :: string
  entry_defn :: string

record history_row =
  history_id :: int
  history_query :: string
  history_dictionary_id :: "int option"
  searched_at :: int

record favorite_row =
  favorite_id :: int
  favorite_word :: string
  favorite_defn :: string
  favorite_dictionary_id :: "int option"
  added_at :: int

record database =
  dictionaries :: "dictionary_row list"
  entries :: "entry_row list"
  search_history :: "history_row list"
  favorites :: "favorite_row list"
  seq_dictionaries :: int
  seq_entries :: int
  seq_search_history :: int
  seq_favorites :: int

text \<open>The store \<open>_init_db\<close> creates on a new database file.\<close>

definition init_db :: database where
  "init_db = \<lparr> dictionaries = [], entries = [], search_history = [], favorites = [],
               seq_dictionaries = 0, seq_entries = 0, seq_search_history = 0,
               seq_favorites = 0 \<rparr>"

subsection \<open>SQL as SQLite evaluates it\<close>

text \<open>
  \<open>AUTOINCREMENT\<close>: the new rowid is one more than the largest rowid the table has
  ever held.
\<close>

definition next_rowid :: "int \<Rightarrow> int list \<Rightarrow> int" where
  "next_rowid seq ids = fold max ids seq + 1"

text \<open>
  A comparison \<open>column = ?\<close> in a \<open>WHERE\<close> clause: with \<open>NULL\<close> on either side
  the comparison is \<open>NULL\<close> and the row is not selected.
\<close>

fun sql_eq :: "'a option \<Rightarrow> 'a option \<Rightarrow> bool" where
  "sql_eq (Some a) (Some b) = (a = b)"
| "sql_eq a b = False"

text \<open>
  A Python \<open>int\<close> bound to a parameter of a statement must fit SQLite's 64-bit
  \<open>INTEGER\<close>; otherwise \<open>execute\<close> raises.
\<close>

definition sqlite_int :: "int \<Rightarrow> bool" where
  "sqlite_int i = (- (2 ^ 63) \<le> i \<and> i < 2 ^ 63)"

definition overflow_error :: string where
  "overflow_error = ''OverflowError: Python int too large to convert to SQLite INTEGER''"

text \<open>\<open>LIMIT n\<close>: a negative \<open>n\<close> means no upper bound.\<close>

definition sql_limit :: "int \<Rightarrow> 'a list \<Rightarrow> 'a list" where
  "sql_limit n xs = (if n < 0 then xs else take (nat n) xs)"

text \<open>
  \<open>text LIKE pattern\<close> with no \<open>ESCAPE\<close>.  SQLite reads pattern and text as
  UTF-8 up to their first NUL byte.  In the pattern \<open>%\<close> matches any run of
  characters, \<open>_\<close> any one character (a lead byte from 0xC0 on together with the
  continuation bytes after it), and every other character matches itself up to ASCII
  case.  A pattern of more than 50000 bytes is an error.
\<close>

definition is_continuation :: "char \<Rightarrow> bool" where
  "is_continuation c = (128 \<le> (of_char c :: nat) \<and> (of_char c :: nat) < 192)"

fun skip_char :: "string \<Rightarrow> string" where
  "skip_char [] = []"
| "skip_char (c # cs) = (if 192 \<le> (of_char c :: nat) then dropWhile is_continuation cs else cs)"

function like :: "string \<Rightarrow> string \<Rightarrow> bool" where
  "like [] [] = True"
| "like [] (c # cs) = False"
| "like (p # ps) [] = (p = CHR ''%'' \<and> like ps [])"
| "like (p # ps) (c # cs) =
     (if p = CHR ''%'' then like ps (c # cs) \<or> like (p # ps) (skip_char (c # cs))
      else if p = CHR ''_'' then like ps (skip_char (c # cs))
      else ascii_lower p = ascii_lower c \<and> like ps cs)"
  by pat_completeness auto
termination
  by (relation "measure (\<lambda>(p, t). length p + length t)")
    (auto simp add: less_Suc_eq_le intro: le_SucI length_dropWhile_le)

definition until_nul :: "string \<Rightarrow> string" where
  "until_nul s = takeWhile (\<lambda>c. c \<noteq> CHR 0x00) s"

definition sql_like :: "string \<Rightarrow> string \<Rightarrow> bool" where
  "sql_like pattern t = like (until_nul pattern) (until_nul t)"

definition like_error :: string where
  "like_error = ''sqlite3.OperationalError: LIKE or GLOB pattern too complex''"

text \<open>
  \<open>ORDER BY key\<close> and \<open>ORDER BY key DESC\<close>.  SQL leaves the order of rows with
  equal keys open; the model keeps them in rowid order, and no theorem below depends
  on that choice.
\<close>

definition order_by :: "('r \<Rightarrow> 'k::linorder) \<Rightarrow> 'r list \<Rightarrow> 'r list" where
  "order_by key rows = sort_key key rows"

definition order_by_desc :: "('r \<Rightarrow> int) \<Rightarrow> 'r list \<Rightarrow> 'r list" where
  "order_by_desc key rows = sort_key (\<lambda>r. - key r) rows"

section \<open>The manager and its surroundings\<close>

text \<open>
  What the external decoder (\<open>Glossary.directRead\<close> and the iteration over the
  glossary) does with a file: \<open>directRead\<close> raises with a message, or the iteration
  yields entries and then, possibly, raises with a message.
\<close>

record raw_entry =
  isData :: bool
  s_word :: string
  defi :: string

datatype decoder_outcome = ReadError string | Decoded "raw_entry list" "string option"

text \<open>
  The library functions the manager calls and does not define: \<open>str.lower\<close> (the
  Unicode lower-casing of the interpreter), \<open>os.path.abspath\<close>, \<open>Path.absolute\<close>,
  \<open>Path.resolve\<close> and the decoder, which is given what the path holds; and whether
  the process may create a file at a path (\<open>shutil.copy2\<close> raises where it may not).
\<close>

record os_env =
  str_lower :: "string \<Rightarrow> string"
  abspath :: "string \<Rightarrow> string"
  absolute :: "string \<Rightarrow> string"
  resolve :: "string \<Rightarrow> string"
  decoder :: "node option \<Rightarrow> decoder_outcome"
  writable :: "string \<Rightarrow> bool"

text \<open>
  The state one manager instance works on: the database file, the attribute
  \<open>current_dict_id\<close> (\<open>None\<close> or an id the \<open>dictionaries\<close> table has issued)
  and the file system.  The last two fields are observations
  added to the model and read by no operation: the arguments of the calls of
  \<open>import_bgl\<close> and of the decoder, in order.
\<close>

record state =
  db :: database
  current_dict_id :: "int option"
  fs :: filesystem
  import_calls :: "string list"
  decoder_calls :: "string list"

text \<open>\<open>DictionaryManager()\<close> on a new database file.\<close>

definition new_manager :: "filesystem \<Rightarrow> state" where
  "new_manager files = \<lparr> db = init_db, current_dict_id = None, fs = files,
                          import_calls = [], decoder_calls = [] \<rparr>"

text \<open>\<open>not self.current_dict_id\<close>: true for \<open>None\<close> and for \<open>0\<close>.\<close>

definition no_dictionary :: "int option \<Rightarrow> bool" where
  "no_dictionary cur = (case cur of None \<Rightarrow> True | Some i \<Rightarrow> i = 0)"

section \<open>Search and suggestions\<close>

text \<open>
  The rows of \<open>WHERE dictionary_id = ? AND LOWER(word) LIKE ?\<close>.  \<open>LIKE\<close> is
  evaluated on the rows of the active dictionary, so a pattern that is too long is an
  error when there is such a row.
\<close>

definition own_entries :: "state \<Rightarrow> entry_row list" where
  "own_entries st =
     filter (\<lambda>e. sql_eq (Some (entry_dictionary_id e)) (current_dict_id st)) (entries (db st))"

definition matching :: "state \<Rightarrow> string \<Rightarrow> string + entry_row list" where
  "matching st pattern =
     (if own_entries st \<noteq> [] \<and> length pattern > 50000 then Inl like_error
      else Inr (filter (\<lambda>e. sql_like pattern (lower_ascii (entry_word e))) (own_entries st)))"

text \<open>
  The parameter \<open>limit\<close> is optional (\<open>None\<close>: the caller leaves it out); the
  result is the list returned or, on the left, the exception raised.
\<close>

definition search ::
  "os_env \<Rightarrow> state \<Rightarrow> string \<Rightarrow> int option \<Rightarrow> (string + (string \<times> string) list) \<times> state" where
  "search env st query limit_arg =
     (let limit = (case limit_arg of None \<Rightarrow> 20 | Some n \<Rightarrow> n) in
      if no_dictionary (current_dict_id st) \<or> strip query = [] then (Inr [], st)
      else let q = str_lower env (strip query) in
        if \<not> sqlite_int limit then (Inl overflow_error, st)
        else case matching st (q @ ''%'') of
               Inl e \<Rightarrow> (Inl e, st)
             | Inr rows \<Rightarrow>
                 (Inr (map (\<lambda>e. (entry_word e, entry_defn e))
                         (sql_limit limit (order_by entry_word rows))), st))"

definition get_suggestions ::
  "os_env \<Rightarrow> state \<Rightarrow> string \<Rightarrow> int option \<Rightarrow> (string + string list) \<times> state" where
  "get_suggestions env st prefix limit_arg =
     (let limit = (case limit_arg of None \<Rightarrow> 10 | Some n \<Rightarrow> n) in
      if no_dictionary (current_dict_id st) \<or> strip prefix = [] then (Inr [], st)
      else let p = str_lower env (strip prefix) in
        if \<not> sqlite_int limit then (Inl overflow_error, st)
        else case matching st (p @ ''%'') of
               Inl e \<Rightarrow> (Inl e, st)
             | Inr rows \<Rightarrow>
                 (Inr (sql_limit limit (remdups (order_by id (map entry_word rows)))), st))"

section \<open>History\<close>

definition add_to_history :: "state \<Rightarrow> int \<Rightarrow> string \<Rightarrow> state" where
  "add_to_history st now query =
     (if strip query = [] then st
      else let d = db st;
               i = next_rowid (seq_search_history d) (map history_id (search_history d));
               rows = search_history d @
                 [\<lparr> history_id = i, history_query = strip query,
                    history_dictionary_id = current_dict_id st, searched_at = now \<rparr>];
               keep = map history_id (sql_limit 100 (order_by_desc searched_at rows))
           in st\<lparr> db := d\<lparr> search_history := filter (\<lambda>r. history_id r \<in> set keep) rows,
                            seq_search_history := i \<rparr> \<rparr>)"

definition get_history :: "state \<Rightarrow> int option \<Rightarrow> (string + (string \<times> int) list) \<times> state" where
  "get_history st limit_arg =
     (let limit = (case limit_arg of None \<Rightarrow> 20 | Some n \<Rightarrow> n) in
      if \<not> sqlite_int limit then (Inl overflow_error, st)
      else (Inr (map (\<lambda>r. (history_query r, searched_at r))
                   (sql_limit limit (order_by_desc searched_at (search_history (db st))))), st))"

text \<open>A sequence of \<open>add_to_history\<close> calls, each at its clock reading.\<close>

fun add_all_to_history :: "state \<Rightarrow> (int \<times> string) list \<Rightarrow> state" where
  "add_all_to_history st [] = st"
| "add_all_to_history st ((now, query) # calls) =
     add_all_to_history (add_to_history st now query) calls"

section \<open>Favorites\<close>

definition favorite_matches :: "state \<Rightarrow> string \<Rightarrow> favorite_row \<Rightarrow> bool" where
  "favorite_matches st w r =
     (favorite_word r = w \<and> sql_eq (favorite_dictionary_id r) (current_dict_id st))"

definition add_to_favorites :: "state \<Rightarrow> int \<Rightarrow> string \<Rightarrow> string \<Rightarrow> bool \<times> state" where
  "add_to_favorites st now w d =
     (if list_ex (favorite_matches st w) (favorites (db st)) then (False, st)
      else let b = db st;
               i = next_rowid (seq_favorites b) (map favorite_id (favorites b))
           in (True, st\<lparr> db := b\<lparr> favorites := favorites b @
                 [\<lparr> favorite_id = i, favorite_word = w, favorite_defn = d,
                    favorite_dictionary_id = current_dict_id st, added_at = now \<rparr>],
                 seq_favorites := i \<rparr> \<rparr>))"

definition remove_from_favorites :: "state \<Rightarrow> string \<Rightarrow> bool \<times> state" where
  "remove_from_favorites st w =
     (let b = db st;
          rowcount = length (filter (favorite_matches st w) (favorites b))
      in (rowcount > 0,
          st\<lparr> db := b\<lparr> favorites := filter (\<lambda>r. \<not> favorite_matches st w r) (favorites b) \<rparr> \<rparr>))"

definition is_favorite :: "state \<Rightarrow> string \<Rightarrow> bool \<times> state" where
  "is_favorite st w = (list_ex (favorite_matches st w) (favorites (db st)), st)"

section \<open>Ingestion\<close>

text \<open>
  \<open>import_bgl\<close> catches every exception and returns a pair; the model has a branch
  for each failure the code itself decides on.  Failures of the database file (locked,
  unwritable) and of the unused temporary directory are outside the model.
\<close>

subsection \<open>Paths\<close>

text \<open>
  \<open>Path(p).name\<close>, \<open>.suffix\<close>, \<open>.stem\<close> and \<open>.with_suffix(s)\<close> of pathlib for a
  POSIX path: the name is what follows the last \<open>/\<close>, and it has a suffix when its
  last dot is neither its first nor its last character.
\<close>

definition path_name :: "string \<Rightarrow> string" where
  "path_name p = rev (takeWhile (\<lambda>c. c \<noteq> CHR ''/'') (rev p))"

definition path_dir :: "string \<Rightarrow> string" where
  "path_dir p = rev (dropWhile (\<lambda>c. c \<noteq> CHR ''/'') (rev p))"

definition has_suffix :: "string \<Rightarrow> bool" where
  "has_suffix name =
     (length (dropWhile (\<lambda>c. c \<noteq> CHR ''.'') (rev name)) > 1
      \<and> takeWhile (\<lambda>c. c \<noteq> CHR ''.'') (rev name) \<noteq> [])"

definition name_stem :: "string \<Rightarrow> string" where
  "name_stem name =
     (if has_suffix name then rev (tl (dropWhile (\<lambda>c. c \<noteq> CHR ''.'') (rev name))) else name)"

definition name_suffix :: "string \<Rightarrow> string" where
  "name_suffix name =
     (if has_suffix name then CHR ''.'' # rev (takeWhile (\<lambda>c. c \<noteq> CHR ''.'') (rev name)) else [])"

definition path_stem :: "string \<Rightarrow> string" where
  "path_stem p = name_stem (path_name p)"

definition path_suffix :: "string \<Rightarrow> string" where
  "path_suffix p = name_suffix (path_name p)"

definition with_suffix :: "string \<Rightarrow> string \<Rightarrow> string" where
  "with_suffix p s = path_dir p @ path_stem p @ s"

subsection \<open>Messages\<close>

definition lock_sign :: string where "lock_sign = [CHR 0xF0, CHR 0x9F, CHR 0x94, CHR 0x92]"
definition warning_sign :: string where
  "warning_sign = [CHR 0xE2, CHR 0x9A, CHR 0xA0, CHR 0xEF, CHR 0xB8, CHR 0x8F]"
definition check_mark :: string where "check_mark = [CHR 0xE2, CHR 0x9C, CHR 0x85]"
definition bullet :: string where "bullet = [CHR 0xE2, CHR 0x80, CHR 0xA2]"

definition encryption_detected :: "string \<Rightarrow> string" where
  "encryption_detected hint =
     lock_sign @ '' ENCRYPTION DETECTED'' @ newline @ newline
     @ ''File appears to be a commercial encrypted dictionary ('' @ hint @ '').''
     @ newline @ newline
     @ warning_sign @ ''  Babylon'' @ apostrophe
     @ ''s Persian dictionaries (Aryanpur Pro, hFarsi Advanced) use proprietary DRM'' @ newline
     @ ''that cannot be legally decrypted by third-party tools.'' @ newline @ newline
     @ check_mark @ '' WORKING ALTERNATIVES:'' @ newline
     @ ''   '' @ bullet
     @ '' Use FREE unencrypted dictionaries from: https://github.com/ilius/pyglossary/wiki/BGL''
     @ newline
     @ ''   '' @ bullet @ '' Convert StarDict format (.dict.dz + .idx) using pyglossary'' @ newline
     @ ''   '' @ bullet @ '' Export definitions via Babylon'' @ apostrophe
     @ ''s official software first''"

definition decryption_failed :: string where
  "decryption_failed =
     lock_sign @ '' DECRYPTION FAILED'' @ newline @ newline
     @ ''This is a commercial encrypted Babylon dictionary.'' @ newline
     @ ''No legal tool can decrypt these files.'' @ newline @ newline
     @ check_mark @ '' Get FREE Persian dictionaries:'' @ newline
     @ ''   https://github.com/kiomarszadeh/Persian-Dictionary''"

text \<open>The format \<open>{n:,}\<close>: decimal digits in groups of three.\<close>

fun decimal :: "nat \<Rightarrow> string" where
  "decimal n = (if n < 10 then [char_of (48 + n)]
                else decimal (n div 10) @ [char_of (48 + n mod 10)])"

fun group3 :: "string \<Rightarrow> string" where
  "group3 (a # b # c # d # ds) = a # b # c # CHR '','' # group3 (d # ds)"
| "group3 ds = ds"

definition thousands :: "nat \<Rightarrow> string" where
  "thousands n = rev (group3 (rev (decimal n)))"

definition imported_message :: "nat \<Rightarrow> string \<Rightarrow> string" where
  "imported_message n name =
     check_mark @ '' Imported '' @ thousands n @ '' entries from ''
     @ apostrophe @ name @ apostrophe"

subsection \<open>The steps of \<open>import_bgl\<close>\<close>

definition derive_name :: "string \<Rightarrow> string" where
  "derive_name bgl_path =
     replace_char CHR ''-'' CHR ''_''
       (replace_char CHR ''.'' CHR ''_''
          (replace_char CHR '' '' CHR ''_'' (path_stem bgl_path)))"

text \<open>
  \<open>shutil.copy2(src, dst)\<close> copies a regular file to a path where the process may
  create one; the copy becomes a child of its directory.  Otherwise it raises
  (\<open>None\<close>).
\<close>

definition path_parent :: "string \<Rightarrow> string" where
  "path_parent p = (if length (path_dir p) > 1 then butlast (path_dir p) else path_dir p)"

definition add_child :: "filesystem \<Rightarrow> string \<Rightarrow> string \<Rightarrow> filesystem" where
  "add_child files d child =
     (case files d of
        Some (Directory cs) \<Rightarrow> files(d \<mapsto> Directory (cs @ [child]))
      | _ \<Rightarrow> files)"

definition copy2 :: "os_env \<Rightarrow> filesystem \<Rightarrow> string \<Rightarrow> string \<Rightarrow> filesystem option" where
  "copy2 env files src dst =
     (case files src of
        Some (RegularFile b) \<Rightarrow>
          if writable env dst
          then Some (add_child (files(dst \<mapsto> RegularFile b)) (path_parent dst) dst)
          else None
      | _ \<Rightarrow> None)"

text \<open>
  The block after the comment ``Normalize extension to lowercase'': the path the
  decoder is given, and the file system after the copy, if one is made.
\<close>

definition normalize_extension :: "os_env \<Rightarrow> filesystem \<Rightarrow> string \<Rightarrow> string \<times> filesystem" where
  "normalize_extension env files bgl_path =
     (if bgl_path \<noteq> str_lower env bgl_path
      then let normalized_path = resolve env (with_suffix bgl_path ''.bgl'')
           in if \<not> path_exists files normalized_path
              then (case copy2 env files bgl_path normalized_path of
                      Some files' \<Rightarrow> (normalized_path, files')
                    | None \<Rightarrow> (bgl_path, files))
              else (bgl_path, files)
      else (bgl_path, files))"

definition collect_entries :: "raw_entry list \<Rightarrow> (string \<times> string) list" where
  "collect_entries raw =
     map (\<lambda>e. (s_word e, defi e))
         (filter (\<lambda>e. \<not> isData e \<and> s_word e \<noteq> [] \<and> defi e \<noteq> []) raw)"

definition clean_entries :: "(string \<times> string) list \<Rightarrow> (string \<times> string) list" where
  "clean_entries es =
     filter (\<lambda>wd. fst wd \<noteq> [] \<and> snd wd \<noteq> []) (map (\<lambda>wd. (strip (fst wd), strip (snd wd))) es)"

definition insert_entry :: "int \<Rightarrow> string \<times> string \<Rightarrow> database \<Rightarrow> database" where
  "insert_entry dict_id wd d =
     (let i = next_rowid (seq_entries d) (map entry_id (entries d))
      in d\<lparr> entries := entries d @
               [\<lparr> entry_id = i, entry_dictionary_id = dict_id,
                  entry_word = fst wd, entry_defn = snd wd \<rparr>],
            seq_entries := i \<rparr>)"

text \<open>
  The transaction ``Import into main DB''.  \<open>INSERT OR REPLACE\<close> removes the row
  whose \<open>name\<close> collides and inserts the new row under a new rowid; the id is then
  read back by name (\<open>None\<close>: \<open>fetchone()\<close> found no row, the subscript raises and
  the transaction is rolled back).
\<close>

definition store_dictionary ::
  "database \<Rightarrow> string \<Rightarrow> string \<Rightarrow> (string \<times> string) list \<Rightarrow> (int \<times> database) option" where
  "store_dictionary d name path cleaned =
     (let i = next_rowid (seq_dictionaries d) (map dictionary_id (dictionaries d));
          d1 = d\<lparr> dictionaries := filter (\<lambda>r. dictionary_name r \<noteq> name) (dictionaries d) @
                     [\<lparr> dictionary_id = i, dictionary_name = name, source_path = path,
                        word_count = int (length cleaned), is_encrypted = False \<rparr>],
                  seq_dictionaries := i \<rparr>
      in case find (\<lambda>r. dictionary_name r = name) (dictionaries d1) of
           None \<Rightarrow> None
         | Some r \<Rightarrow>
             let dict_id = dictionary_id r;
                 d2 = d1\<lparr> entries := filter (\<lambda>e. entry_dictionary_id e \<noteq> dict_id) (entries d1) \<rparr>
             in Some (dict_id, fold (insert_entry dict_id) cleaned d2))"

definition encryption_keywords :: "string list" where
  "encryption_keywords = [''encrypt'', ''password'', ''drm'', ''protected'']"

definition import_decoded ::
  "state \<Rightarrow> string \<Rightarrow> string \<Rightarrow> raw_entry list \<Rightarrow> (bool \<times> string) \<times> state" where
  "import_decoded st dict_name bgl_path raw =
     (let es = collect_entries raw in
      if es = [] then
        ((False, ''Dictionary contains no entries (likely encrypted or corrupted)''), st)
      else let cleaned = clean_entries es in
        if cleaned = [] then
          ((False, ''No valid entries after cleaning (encoding issues)''), st)
        else (case store_dictionary (db st) dict_name bgl_path cleaned of
                None \<Rightarrow>
                  ((False, ''Import failed: TypeError: '' @ apostrophe @ ''NoneType'' @ apostrophe
                           @ '' object is not subscriptable''), st)
              | Some (dict_id, d) \<Rightarrow>
                  ((True, imported_message (length cleaned) dict_name),
                   st\<lparr> db := d, current_dict_id := Some dict_id \<rparr>)))"

definition import_clear :: "os_env \<Rightarrow> state \<Rightarrow> string \<Rightarrow> (bool \<times> string) \<times> state" where
  "import_clear env st bgl_path0 =
     (let dict_name = derive_name bgl_path0;
          (bgl_path, files) = normalize_extension env (fs st) bgl_path0;
          st1 = st\<lparr> fs := files, decoder_calls := decoder_calls st @ [bgl_path] \<rparr>
      in case decoder env (files bgl_path) of
           ReadError e \<Rightarrow>
             if list_ex (\<lambda>k. contains (str_lower env e) k) encryption_keywords
             then ((False, decryption_failed), st1)
             else ((False, ''BGL parsing error: '' @ e), st1)
         | Decoded raw (Some e) \<Rightarrow> ((False, ''Error reading entries: '' @ e), st1)
         | Decoded raw None \<Rightarrow> import_decoded st1 dict_name bgl_path raw)"

definition import_bgl :: "os_env \<Rightarrow> state \<Rightarrow> string \<Rightarrow> (bool \<times> string) \<times> state" where
  "import_bgl env st0 path =
     (let st = st0\<lparr> import_calls := import_calls st0 @ [path] \<rparr>;
          bgl_path = abspath env path
      in if \<not> path_exists (fs st) bgl_path then
           ((False, ''File not found: '' @ bgl_path), st)
         else if \<not> endswith (str_lower env bgl_path) ''.bgl'' then
           ((False, ''File must have .bgl extension (case-insensitive check)''), st)
         else let (is_enc, hint) = is_encrypted_bgl (fs st) bgl_path in
           if is_enc then ((False, encryption_detected hint), st)
           else import_clear env st bgl_path)"

section \<open>Directory scanner\<close>

text \<open>A result record (\<open>file_key\<close> is its key \<open>"file"\<close>, which the error and info
  records do not have).\<close>

record scan_result =
  file_key :: "string option"
  status :: string
  message :: string

text \<open>
  \<open>Path(directory).iterdir()\<close>: the paths of the children, or the exception a path
  that is not a directory raises (this exception leaves \<open>scan_and_import\<close>).
\<close>

definition iterdir :: "filesystem \<Rightarrow> string \<Rightarrow> string + string list" where
  "iterdir files d =
     (case files d of
        Some (Directory cs) \<Rightarrow> Inr cs
      | _ \<Rightarrow> Inl (''NotADirectoryError: [Errno 20] Not a directory: '' @ apostrophe @ d @ apostrophe))"

definition eligible :: "os_env \<Rightarrow> filesystem \<Rightarrow> string \<Rightarrow> bool" where
  "eligible env files f = (is_file files f \<and> str_lower env (path_suffix f) = ''.bgl'')"

definition skip_record :: "string \<Rightarrow> scan_result" where
  "skip_record f = \<lparr> file_key = Some (path_name f), status = ''skip'', message = ''Already imported'' \<rparr>"

definition import_record :: "string \<Rightarrow> bool \<times> string \<Rightarrow> scan_result" where
  "import_record f r =
     \<lparr> file_key = Some (path_name f), status = (if fst r then ''success'' else ''error''),
       message = snd r \<rparr>"

text \<open>The loop over \<open>files\<close>; \<open>existing\<close> is read once, before the loop.\<close>

fun scan_files ::
  "os_env \<Rightarrow> string list \<Rightarrow> string list \<Rightarrow> state \<Rightarrow> scan_result list
   \<Rightarrow> scan_result list \<times> state" where
  "scan_files env existing [] st results = (results, st)"
| "scan_files env existing (file_path # files) st results =
     (if absolute env file_path \<in> set existing
      then scan_files env existing files st (results @ [skip_record file_path])
      else let (r, st') = import_bgl env st file_path
           in scan_files env existing files st' (results @ [import_record file_path r]))"

definition scan_and_import ::
  "os_env \<Rightarrow> state \<Rightarrow> string \<Rightarrow> (string + scan_result list) \<times> state" where
  "scan_and_import env st directory =
     (if \<not> path_exists (fs st) directory then
        (Inr [\<lparr> file_key = None, status = ''error'',
                message = ''Directory not found: '' @ directory \<rparr>], st)
      else case iterdir (fs st) directory of
             Inl e \<Rightarrow> (Inl e, st)
           | Inr children \<Rightarrow>
               let files = filter (eligible env (fs st)) children in
               if files = [] then
                 (Inr [\<lparr> file_key = None, status = ''info'',
                         message = ''No BGL files found in directory'' \<rparr>], st)
               else let existing_paths = map source_path (dictionaries (db st));
                        (results, st') = scan_files env existing_paths files st []
                    in (Inr results, st'))"

section \<open>Notions used in the statements\<close>

text \<open>
  The row \<open>add_to_history\<close> inserts, and the rows its \<open>DELETE\<close> keeps: those
  of \<open>SELECT id FROM search_history ORDER BY searched_at DESC LIMIT 100\<close>.
\<close>

definition new_history :: "state \<Rightarrow> int \<Rightarrow> string \<Rightarrow> history_row" where
  "new_history st now query =
     \<lparr> history_id = next_rowid (seq_search_history (db st))
                       (map history_id (search_history (db st))),
       history_query = strip query,
       history_dictionary_id = current_dict_id st, searched_at = now \<rparr>"

definition newest_100 :: "history_row list \<Rightarrow> history_row list" where
  "newest_100 rows = sql_limit 100 (order_by_desc searched_at rows)"

text \<open>The row \<open>add_to_favorites\<close> inserts.\<close>

definition new_favorite :: "state \<Rightarrow> int \<Rightarrow> string \<Rightarrow> string \<Rightarrow> favorite_row" where
  "new_favorite st now w d =
     \<lparr> favorite_id = next_rowid (seq_favorites (db st)) (map favorite_id (favorites (db st))),
       favorite_word = w, favorite_defn = d,
       favorite_dictionary_id = current_dict_id st, added_at = now \<rparr>"

text \<open>The characters \<open>import_bgl\<close> replaces in the stem of the file name.\<close>

definition separator_chars :: "char set" where
  "separator_chars = {CHR '' '', CHR ''.'', CHR ''-''}"

text \<open>
  For a call of \<open>import_bgl\<close>: the path the decoder is given, and the cleaned entries
  (the list \<open>cleaned\<close>) when the decoder yields entries and does not raise.
\<close>

definition decoded_path :: "os_env \<Rightarrow> state \<Rightarrow> string \<Rightarrow> string" where
  "decoded_path env st path = fst (normalize_extension env (fs st) (abspath env path))"

definition decoded_entries :: "os_env \<Rightarrow> state \<Rightarrow> string \<Rightarrow> (string \<times> string) list" where
  "decoded_entries env st path =
     (let (p, files) = normalize_extension env (fs st) (abspath env path)
      in case decoder env (files p) of
           Decoded raw None \<Rightarrow> clean_entries (collect_entries raw)
         | _ \<Rightarrow> [])"

text \<open>The row \<open>INSERT OR REPLACE INTO dictionaries\<close> inserts.\<close>

definition new_dictionary :: "database \<Rightarrow> string \<Rightarrow> string \<Rightarrow> nat \<Rightarrow> dictionary_row" where
  "new_dictionary d name path n =
     \<lparr> dictionary_id = next_rowid (seq_dictionaries d) (map dictionary_id (dictionaries d)),
       dictionary_name = name, source_path = path, word_count = int n, is_encrypted = False \<rparr>"

text \<open>The state in which the scan reaches the file of index \<open>i\<close>.\<close>

definition state_before :: "os_env \<Rightarrow> string list \<Rightarrow> string list \<Rightarrow> state \<Rightarrow> nat \<Rightarrow> state" where
  "state_before env existing files st i = snd (scan_files env existing (take i files) st [])"

section \<open>Concrete scenarios\<close>

text \<open>A file system holding one path.\<close>

definition fs_one :: "string \<Rightarrow> node \<Rightarrow> filesystem" where
  "fs_one p n = Map.empty(p \<mapsto> n)"

text \<open>Two entries of dictionary 1, with no dictionary active and with it active.\<close>

definition two_entries :: "entry_row list" where
  "two_entries =
     [\<lparr> entry_id = 1, entry_dictionary_id = 1, entry_word = ''banana'', entry_defn = ''a fruit'' \<rparr>,
      \<lparr> entry_id = 2, entry_dictionary_id = 1, entry_word = ''Apple'', entry_defn = ''a tree'' \<rparr>]"

definition st_inactive :: state where
  "st_inactive = (new_manager Map.empty)\<lparr> db := init_db\<lparr> entries := two_entries, seq_entries := 2 \<rparr> \<rparr>"

definition st_active :: state where
  "st_active = st_inactive\<lparr> current_dict_id := Some 1 \<rparr>"

text \<open>
  A query that is blank after trimming: a space, a tab, a no-break space (U+00A0) and
  an ideographic space (U+3000).
\<close>

definition blank_query :: string where
  "blank_query = [CHR 0x20, CHR 0x09, CHR 0xC2, CHR 0xA0, CHR 0xE3, CHR 0x80, CHR 0x80]"

text \<open>A new manager, and one whose active dictionary is 1.\<close>

definition st_plain :: state where
  "st_plain = new_manager Map.empty"


text \<open>
  A ledger of 100 records with ids and timestamps 1 to 100, and two calls on it, the
  second with a query of whitespace only.
\<close>

definition hundred_rows :: "history_row list" where
  "hundred_rows =
     map (\<lambda>i. \<lparr> history_id = int i, history_query = ''q'', history_dictionary_id = None,
                 searched_at = int i \<rparr>) [1..<101]"

definition st_full :: state where
  "st_full = st_plain\<lparr> db := init_db\<lparr> search_history := hundred_rows,
                                       seq_search_history := 100 \<rparr> \<rparr>"

definition two_calls :: "(int \<times> string) list" where
  "two_calls = [(200, '' new ''), (201, blank_query)]"

text \<open>
  A directory with a clear dictionary file, a file that starts with a byte-order mark
  and a text file; a decoder that yields two textual entries with content, a data
  record and an entry whose word is whitespace only for a file with the standard header;
  \<open>str.lower\<close> as it is on the ASCII text of these scenarios; and a new manager on
  this file system.
\<close>

definition env_demo :: os_env where
  "env_demo = \<lparr> str_lower = lower_ascii,
       abspath = (\<lambda>p. p), absolute = (\<lambda>p. p), resolve = (\<lambda>p. p),
       decoder = (\<lambda>n. case n of
           Some (RegularFile b) \<Rightarrow>
             if startswith b [0x00, 0x01]
             then Decoded [\<lparr> isData = False, s_word = '' cat '', defi = ''an animal'' \<rparr>,
                           \<lparr> isData = True, s_word = ''cover.png'', defi = ''image'' \<rparr>,
                           \<lparr> isData = False, s_word = blank_query, defi = ''blank word'' \<rparr>,
                           \<lparr> isData = False, s_word = ''dog'', defi = ''another animal'' \<rparr>] None
             else ReadError ''not a BGL file''
         | _ \<Rightarrow> ReadError ''cannot open''),
       writable = (\<lambda>p. True) \<rparr>"

definition fs_demo :: filesystem where
  "fs_demo = Map.empty(
     ''/dicts'' \<mapsto> Directory [''/dicts/locked.bgl'', ''/dicts/farsi-basic.bgl'', ''/dicts/notes.txt''],
     ''/dicts/farsi-basic.bgl'' \<mapsto> RegularFile [0x00, 0x01, 0x12, 0x34],
     ''/dicts/locked.bgl'' \<mapsto> RegularFile [0xFE, 0xFF, 0x00, 0x00],
     ''/dicts/notes.txt'' \<mapsto> RegularFile [0x68, 0x69])"

definition st_demo :: state where
  "st_demo = new_manager fs_demo"

text \<open>The states after one import of the clear file and after a second one.\<close>

definition st_imported :: state where
  "st_imported = snd (import_bgl env_demo st_demo ''/dicts/farsi-basic.bgl'')"

definition st_reimported :: state where
  "st_reimported = snd (import_bgl env_demo st_imported ''/dicts/farsi-basic.bgl'')"

text \<open>The eligible files of the directory above, and the state after one scan of it.\<close>

definition demo_files :: "string list" where
  "demo_files = [''/dicts/locked.bgl'', ''/dicts/farsi-basic.bgl'']"

definition st_scanned :: state where
  "st_scanned = snd (scan_and_import env_demo st_demo ''/dicts'')"

section \<open>Properties of the format sniffer\<close>

lemma open_read_fs_one: "open_read (fs_one p (RegularFile b)) p n = Inr (take n b)"
  by (simp add: open_read_def fs_one_def)

lemma verdict_check_header: "verdict (check_header h) = sniff_rules h"
  by (simp add: verdict_def check_header_def sniff_rules_def standard_header_def
      vendor_or_bom_def vendor_fragment_def msg_likely_def msg_encrypted_def)

text \<open>
  Claim C4.  The sniffer applies its rules in order and the first match wins: a header
  (the first 32 bytes) starting with \<open>00 01\<close> or \<open>01 00\<close> is Clear; otherwise the
  vendor signature anywhere in the header, or a byte-order mark within its first four
  bytes, is Encrypted; otherwise a regional-vendor name fragment in the header is
  LikelyEncrypted; otherwise the file is Clear; and a file that cannot be read is Clear,
  with the error text as the reason.
\<close>

theorem sniffer_first_match_wins:
  "(open_read files p 32 = Inl e \<longrightarrow>
      verdict (is_encrypted_bgl files p) = Clear (''Error checking header: '' @ e))
   \<and> (open_read files p 32 = Inr h \<longrightarrow>
        verdict (is_encrypted_bgl files p) = sniff_rules h
      \<and> (standard_header h \<longrightarrow> sniff_rules h = Clear msg_unencrypted)
      \<and> (\<not> standard_header h \<and> vendor_or_bom h \<longrightarrow> sniff_rules h = Encrypted msg_encrypted)
      \<and> (\<not> standard_header h \<and> \<not> vendor_or_bom h \<and> vendor_fragment h
            \<longrightarrow> sniff_rules h = LikelyEncrypted msg_likely)
      \<and> (\<not> standard_header h \<and> \<not> vendor_or_bom h \<and> \<not> vendor_fragment h
            \<longrightarrow> sniff_rules h = Clear msg_unknown))"
  by (simp add: is_encrypted_bgl_def verdict_check_header sniff_rules_def)
    (simp add: verdict_def)

theorem sniffer_first_match_wins_witness:
  "verdict (is_encrypted_bgl Map.empty ''/d/a.bgl'') =
      Clear (''Error checking header: [Errno 2] No such file or directory: ''
             @ apostrophe @ ''/d/a.bgl'' @ apostrophe)
   \<and> verdict (is_encrypted_bgl (fs_one ''/d/a.bgl'' (RegularFile [0x00, 0x01, 0x42, 0x41, 0x42])) ''/d/a.bgl'')
       = Clear msg_unencrypted
   \<and> verdict (is_encrypted_bgl (fs_one ''/d/a.bgl'' (RegularFile [0xFE, 0xFF, 0x00, 0x00])) ''/d/a.bgl'')
       = Encrypted msg_encrypted
   \<and> verdict (is_encrypted_bgl (fs_one ''/d/a.bgl'' (RegularFile [0x12, 0x42, 0x47, 0x4C])) ''/d/a.bgl'')
       = LikelyEncrypted msg_likely
   \<and> verdict (is_encrypted_bgl (fs_one ''/d/a.bgl'' (RegularFile [0x12, 0x34])) ''/d/a.bgl'')
       = Clear msg_unknown"
proof -
  have a: "open_read Map.empty ''/d/a.bgl'' 32 =
      Inl (''[Errno 2] No such file or directory: '' @ apostrophe @ ''/d/a.bgl'' @ apostrophe)"
    by (simp add: open_read_def)
  have b: "open_read (fs_one ''/d/a.bgl'' (RegularFile [0x00, 0x01, 0x42, 0x41, 0x42])) ''/d/a.bgl'' 32
      = Inr [0x00, 0x01, 0x42, 0x41, 0x42]"
    by (simp add: open_read_fs_one)
  have c: "open_read (fs_one ''/d/a.bgl'' (RegularFile [0xFE, 0xFF, 0x00, 0x00])) ''/d/a.bgl'' 32
      = Inr [0xFE, 0xFF, 0x00, 0x00]"
    by (simp add: open_read_fs_one)
  have d: "open_read (fs_one ''/d/a.bgl'' (RegularFile [0x12, 0x42, 0x47, 0x4C])) ''/d/a.bgl'' 32
      = Inr [0x12, 0x42, 0x47, 0x4C]"
    by (simp add: open_read_fs_one)
  have e: "open_read (fs_one ''/d/a.bgl'' (RegularFile [0x12, 0x34])) ''/d/a.bgl'' 32
      = Inr [0x12, 0x34]"
    by (simp add: open_read_fs_one)
  have hb: "standard_header [0x00, 0x01, 0x42, 0x41, 0x42]"
    by (simp add: standard_header_def)
  have hc: "\<not> standard_header [0xFE, 0xFF, 0x00, 0x00] \<and> vendor_or_bom [0xFE, 0xFF, 0x00, 0x00]"
    by (simp add: standard_header_def vendor_or_bom_def)
  have hd: "\<not> standard_header [0x12, 0x42, 0x47, 0x4C] \<and> \<not> vendor_or_bom [0x12, 0x42, 0x47, 0x4C]
      \<and> vendor_fragment [0x12, 0x42, 0x47, 0x4C]"
    by (simp add: standard_header_def vendor_or_bom_def vendor_fragment_def sig_BAB_def sig_BGL_def)
  have he: "\<not> standard_header [0x12, 0x34] \<and> \<not> vendor_or_bom [0x12, 0x34]
      \<and> \<not> vendor_fragment [0x12, 0x34]"
    by (simp add: standard_header_def vendor_or_bom_def vendor_fragment_def sig_BAB_def sig_BGL_def
        sig_hFarsi_def sig_Aryanpur_def sig_gzip_def)
  show ?thesis
    using sniffer_first_match_wins [of Map.empty "''/d/a.bgl''" _ "[]"] a
      sniffer_first_match_wins [of _ "''/d/a.bgl''" "[]" "[0x00, 0x01, 0x42, 0x41, 0x42]"] b hb
      sniffer_first_match_wins [of _ "''/d/a.bgl''" "[]" "[0xFE, 0xFF, 0x00, 0x00]"] c hc
      sniffer_first_match_wins [of _ "''/d/a.bgl''" "[]" "[0x12, 0x42, 0x47, 0x4C]"] d hd
      sniffer_first_match_wins [of _ "''/d/a.bgl''" "[]" "[0x12, 0x34]"] e he
    by simp
qed

section \<open>Properties of search and suggestions\<close>

text \<open>
  Claim C7.  With no dictionary active, \<open>search\<close> and \<open>get_suggestions\<close> return the
  empty list whatever the query is; they return it too for a query that is blank after
  trimming; and neither changes the state.
\<close>

theorem search_empty_without_dictionary:
  "(current_dict_id st = None \<or> strip q = [] \<longrightarrow>
      fst (search env st q limit) = Inr [] \<and> fst (get_suggestions env st q limit) = Inr [])
   \<and> snd (search env st q limit) = st \<and> snd (get_suggestions env st q limit) = st"
  by (simp add: search_def get_suggestions_def no_dictionary_def Let_def split: sum.splits)

lemma strip_blank: "strip ''  '' = []"
  by code_simp

theorem search_empty_without_dictionary_witness:
  "current_dict_id st_inactive = None
   \<and> fst (search env_demo st_inactive ''a'' None) = Inr []
   \<and> fst (get_suggestions env_demo st_inactive ''a'' None) = Inr []
   \<and> strip blank_query = []
   \<and> fst (search env_demo st_active blank_query (Some 50)) = Inr []
   \<and> fst (get_suggestions env_demo st_active blank_query None) = Inr []
   \<and> snd (search env_demo st_active ''a'' None) = st_active
   \<and> snd (get_suggestions env_demo st_active ''a'' None) = st_active"
proof -
  have n: "current_dict_id st_inactive = None"
    by (simp add: st_inactive_def new_manager_def)
  have b: "strip blank_query = []"
    by code_simp
  show ?thesis
    using search_empty_without_dictionary [of st_inactive "''a''" env_demo None]
      search_empty_without_dictionary [of st_active blank_query env_demo "Some 50"]
      search_empty_without_dictionary [of st_active blank_query env_demo None]
      search_empty_without_dictionary [of st_active "''a''" env_demo None]
      n b
    by simp
qed

section \<open>Properties of the favorites\<close>

lemma fold_max_ge: "(s::int) \<le> fold max xs s"
proof (induction xs arbitrary: s)
  case Nil
  show ?case by simp
next
  case (Cons x xs)
  have "s \<le> max x s" by simp
  also have "max x s \<le> fold max xs (max x s)" by (rule Cons.IH)
  finally show ?case by simp
qed

lemma fold_max_ge_elem: "(i::int) \<in> set xs \<Longrightarrow> i \<le> fold max xs s"
proof (induction xs arbitrary: s)
  case Nil
  then show ?case by simp
next
  case (Cons x xs)
  show ?case
  proof (cases "i = x")
    case True
    have "x \<le> max x s" by simp
    also have "max x s \<le> fold max xs (max x s)" by (rule fold_max_ge)
    finally show ?thesis using True by simp
  next
    case False
    with Cons.prems have "i \<in> set xs" by simp
    then show ?thesis using Cons.IH by simp
  qed
qed

lemma next_rowid_gt_seq: "seq < next_rowid seq ids"
  using fold_max_ge [of seq ids] by (simp add: next_rowid_def)

lemma next_rowid_gt_elem: "i \<in> set ids \<Longrightarrow> i < next_rowid seq ids"
  using fold_max_ge_elem [of i ids seq] by (simp add: next_rowid_def)

lemma no_match_without_dictionary:
  "current_dict_id st = None \<Longrightarrow> \<not> favorite_matches st w r"
  by (simp add: favorite_matches_def)

lemma add_to_favorites_new:
  "\<not> list_ex (favorite_matches st w) (favorites (db st)) \<Longrightarrow>
   add_to_favorites st now w d =
     (True, st\<lparr> db := (db st)\<lparr> favorites := favorites (db st) @ [new_favorite st now w d],
          seq_favorites := favorite_id (new_favorite st now w d) \<rparr> \<rparr>)"
  by (simp add: add_to_favorites_def Let_def new_favorite_def)


lemma favorites_step_without_dictionary:
  assumes "current_dict_id st = None"
  shows "add_to_favorites st now w d =
      (True, st\<lparr> db := (db st)\<lparr> favorites := favorites (db st) @ [new_favorite st now w d],
          seq_favorites := favorite_id (new_favorite st now w d) \<rparr> \<rparr>)"
    and "is_favorite st w = (False, st)"
    and "remove_from_favorites st w = (False, st)"
proof -
  have nm: "\<And>r. \<not> favorite_matches st w r"
    using assms by (rule no_match_without_dictionary)
  have ex: "\<not> list_ex (favorite_matches st w) (favorites (db st))"
    by (simp add: list_ex_iff nm)
  show "add_to_favorites st now w d =
      (True, st\<lparr> db := (db st)\<lparr> favorites := favorites (db st) @ [new_favorite st now w d],
          seq_favorites := favorite_id (new_favorite st now w d) \<rparr> \<rparr>)"
    using ex by (rule add_to_favorites_new)
  show "is_favorite st w = (False, st)"
    by (simp add: is_favorite_def ex)
  show "remove_from_favorites st w = (False, st)"
    by (simp add: remove_from_favorites_def Let_def nm)
qed

text \<open>
  Claim C10.  With no dictionary active (\<open>current_dict_id\<close> is \<open>None\<close>, bound as
  SQL \<open>NULL\<close>), every \<open>add_to_favorites\<close> returns \<open>True\<close> and inserts a row, so
  two adds of one word leave two rows for it, with different ids; \<open>is_favorite\<close> and
  \<open>remove_from_favorites\<close> return \<open>False\<close> before and after, and remove nothing:
  the comparison of \<open>dictionary_id\<close> with \<open>NULL\<close> selects no row.
\<close>

theorem favorites_without_dictionary:
  assumes "current_dict_id st = None"
  shows "(let (r1, st1) = add_to_favorites st now w d;
              (r2, st2) = add_to_favorites st1 now' w d'
          in r1 \<and> r2
             \<and> favorites (db st1) = favorites (db st) @ [new_favorite st now w d]
             \<and> favorites (db st2) =
                 favorites (db st) @ [new_favorite st now w d, new_favorite st1 now' w d']
             \<and> favorite_word (new_favorite st now w d) = w
             \<and> favorite_word (new_favorite st1 now' w d') = w
             \<and> favorite_id (new_favorite st now w d) < favorite_id (new_favorite st1 now' w d')
             \<and> is_favorite st w = (False, st)
             \<and> is_favorite st1 w = (False, st1)
             \<and> is_favorite st2 w = (False, st2)
             \<and> remove_from_favorites st1 w = (False, st1)
             \<and> remove_from_favorites st2 w = (False, st2))"
proof -
  define st1 where "st1 = snd (add_to_favorites st now w d)"
  define st2 where "st2 = snd (add_to_favorites st1 now' w d')"
  have a1: "add_to_favorites st now w d = (True, st1)"
    and f1: "favorites (db st1) = favorites (db st) @ [new_favorite st now w d]"
    and s1: "seq_favorites (db st1) = favorite_id (new_favorite st now w d)"
    and c1: "current_dict_id st1 = None"
    using assms by (simp_all add: st1_def favorites_step_without_dictionary(1))
  have a2: "add_to_favorites st1 now' w d' = (True, st2)"
    and f2: "favorites (db st2) = favorites (db st1) @ [new_favorite st1 now' w d']"
    and c2: "current_dict_id st2 = None"
    using c1 by (simp_all add: st2_def favorites_step_without_dictionary(1))
  have fresh: "favorite_id (new_favorite st now w d) < favorite_id (new_favorite st1 now' w d')"
    using next_rowid_gt_seq [of "seq_favorites (db st1)" "map favorite_id (favorites (db st1))"]
    by (simp add: new_favorite_def [of st1] s1)
  have w: "favorite_word (new_favorite s t w e) = w" for s t e
    by (simp add: new_favorite_def)
  show ?thesis
    using fresh
    by (simp add: a1 a2 f1 f2 favorites_step_without_dictionary(2,3) assms c1 c2 w)
qed

theorem favorites_without_dictionary_witness:
  "current_dict_id st_plain = None
   \<and> fst (add_to_favorites st_plain 10 ''cat'' ''an animal'')
   \<and> fst (add_to_favorites (snd (add_to_favorites st_plain 10 ''cat'' ''an animal'')) 11 ''cat'' ''an animal'')
   \<and> length (favorites (db (snd (add_to_favorites
         (snd (add_to_favorites st_plain 10 ''cat'' ''an animal'')) 11 ''cat'' ''an animal'')))) = 2
   \<and> \<not> fst (is_favorite (snd (add_to_favorites st_plain 10 ''cat'' ''an animal'')) ''cat'')
   \<and> \<not> fst (remove_from_favorites (snd (add_to_favorites st_plain 10 ''cat'' ''an animal'')) ''cat'')"
proof -
  have n: "current_dict_id st_plain = None"
    by (simp add: st_plain_def new_manager_def)
  have e: "favorites (db st_plain) = []"
    by (simp add: st_plain_def new_manager_def init_db_def)
  show ?thesis
    using favorites_without_dictionary [OF n, of 10 "''cat''" "''an animal''" 11 "''an animal''"] n e
    by (simp add: split_beta Let_def)
qed




section \<open>Properties of the prefix search\<close>

lemma set_sql_limit: "set (sql_limit n xs) \<subseteq> set xs"
  by (auto simp add: sql_limit_def dest: in_set_takeD)

lemma sorted_sql_limit: "sorted xs \<Longrightarrow> sorted (sql_limit n xs)"
  by (simp add: sql_limit_def sorted_wrt_take)

lemma distinct_sql_limit: "distinct xs \<Longrightarrow> distinct (sql_limit n xs)"
  by (simp add: sql_limit_def)

lemma length_sql_limit: "0 \<le> n \<Longrightarrow> int (length (sql_limit n xs)) \<le> n"
  by (simp add: sql_limit_def)

lemma map_sql_limit: "map f (sql_limit n xs) = sql_limit n (map f xs)"
  by (simp add: sql_limit_def take_map)

text \<open>
  For every query, what \<open>search\<close> and \<open>get_suggestions\<close> return is sorted
  ascending by word and holds at most \<open>limit\<close> items when the limit is not
  negative (20 and 10 when it is left out), and the suggestions are distinct.
\<close>

lemma search_sorted_capped:
  assumes "fst (search env st q lim) = Inr rs"
  shows "sorted (map fst rs)
    \<and> (lim = None \<longrightarrow> length rs \<le> 20)
    \<and> (\<forall>n. lim = Some n \<and> 0 \<le> n \<longrightarrow> int (length rs) \<le> n)"
proof -
  define limit where "limit = (case lim of None \<Rightarrow> 20 | Some n \<Rightarrow> n)"
  have s: "sorted (map entry_word (sql_limit limit (order_by entry_word rows)))"
    for rows :: "entry_row list"
    by (simp add: map_sql_limit sorted_sql_limit order_by_def)
  have l: "0 \<le> limit \<Longrightarrow> int (length (sql_limit limit (order_by entry_word rows))) \<le> limit"
    for rows :: "entry_row list"
    by (rule length_sql_limit)
  show ?thesis
  proof (cases "no_dictionary (current_dict_id st) \<or> strip q = []")
    case True
    with assms have "rs = []"
      by (auto simp add: search_def Let_def)
    then show ?thesis by simp
  next
    case False
    with assms obtain rows :: "entry_row list" where
      "rs = map (\<lambda>e. (entry_word e, entry_defn e)) (sql_limit limit (order_by entry_word rows))"
      by (auto simp add: search_def Let_def limit_def split: if_splits sum.splits)
    then show ?thesis
      using s [of rows] l [of rows] by (auto simp add: comp_def limit_def)
  qed
qed

lemma suggestions_sorted_distinct_capped:
  assumes "fst (get_suggestions env st q lim) = Inr ws"
  shows "sorted ws \<and> distinct ws
    \<and> (lim = None \<longrightarrow> length ws \<le> 10)
    \<and> (\<forall>n. lim = Some n \<and> 0 \<le> n \<longrightarrow> int (length ws) \<le> n)"
proof -
  define limit where "limit = (case lim of None \<Rightarrow> 10 | Some n \<Rightarrow> n)"
  have k: "sorted (sort_key id xs)" for xs :: "string list"
    using sorted_sort_key [of id xs] by simp
  have s: "sorted (sql_limit limit (remdups (order_by id xs)))
      \<and> distinct (sql_limit limit (remdups (order_by id xs)))" for xs :: "string list"
    by (simp add: sorted_sql_limit distinct_sql_limit order_by_def k)
  have l: "0 \<le> limit \<Longrightarrow> int (length (sql_limit limit (remdups (order_by id xs)))) \<le> limit"
    for xs :: "string list"
    by (rule length_sql_limit)
  show ?thesis
  proof (cases "no_dictionary (current_dict_id st) \<or> strip q = []")
    case True
    with assms have "ws = []"
      by (auto simp add: get_suggestions_def Let_def)
    then show ?thesis by simp
  next
    case False
    with assms obtain xs where "ws = sql_limit limit (remdups (order_by id xs))"
      by (auto simp add: get_suggestions_def Let_def limit_def split: if_splits sum.splits)
    then show ?thesis
      using s [of xs] l [of xs] by (auto simp add: limit_def)
  qed
qed

text \<open>
  Claim C2, evaluated.  With dictionary 1 active and holding \<open>banana\<close> and
  \<open>Apple\<close>, the query \<open>_\<close> is passed to \<open>LIKE\<close> unescaped and matches every
  word of one character or more: \<open>search\<close> returns both entries, and neither word
  starts with \<open>_\<close>.  The prefix \<open>%an\<close> makes \<open>get_suggestions\<close> a substring
  search: it returns \<open>banana\<close>, which does not start with \<open>%an\<close>.
\<close>

theorem search_wildcard_not_prefix:
  "fst (search env_demo st_active ''_'' None)
     = Inr [(''Apple'', ''a tree''), (''banana'', ''a fruit'')]
   \<and> \<not> startswith (str_lower env_demo ''Apple'') (str_lower env_demo (strip ''_''))
   \<and> \<not> startswith (str_lower env_demo ''banana'') (str_lower env_demo (strip ''_''))
   \<and> fst (get_suggestions env_demo st_active ''%an'' None) = Inr [''banana'']
   \<and> \<not> startswith (str_lower env_demo ''banana'') (str_lower env_demo (strip ''%an''))"
  by code_simp

section \<open>Properties of the search history\<close>

lemma add_to_history_blank: "strip q = [] \<Longrightarrow> add_to_history st now q = st"
  by (simp add: add_to_history_def)

lemma add_to_history_rows:
  "strip q \<noteq> [] \<Longrightarrow>
   search_history (db (add_to_history st now q)) =
     filter (\<lambda>r. history_id r \<in> history_id ` set (newest_100 (search_history (db st) @ [new_history st now q])))
       (search_history (db st) @ [new_history st now q])"
  by (simp add: add_to_history_def Let_def new_history_def newest_100_def)

lemma length_newest_100: "length (newest_100 rows) \<le> 100"
  by (simp add: newest_100_def sql_limit_def)

lemma set_newest_100: "set (newest_100 rows) \<subseteq> set rows"
  using set_sql_limit [of 100 "order_by_desc searched_at rows"]
  by (simp add: newest_100_def order_by_desc_def)

lemma distinct_rows_new:
  "distinct (map history_id (search_history (db st))) \<Longrightarrow>
   distinct (map history_id (search_history (db st) @ [new_history st now q]))"
  using next_rowid_gt_elem [of _ "map history_id (search_history (db st))" "seq_search_history (db st)"]
  by (auto simp add: new_history_def)

lemma length_filter_ids:
  assumes "distinct (map f xs)"
  shows "length (filter (\<lambda>x. f x \<in> f ` set ys) xs) \<le> length ys"
proof -
  have d: "distinct (map f (filter (\<lambda>x. f x \<in> f ` set ys) xs))"
    using assms by (rule distinct_map_filter)
  have "length (filter (\<lambda>x. f x \<in> f ` set ys) xs) =
      length (map f (filter (\<lambda>x. f x \<in> f ` set ys) xs))"
    by simp
  also have "\<dots> = card (set (map f (filter (\<lambda>x. f x \<in> f ` set ys) xs)))"
    using d by (simp only: distinct_card)
  also have "\<dots> \<le> card (f ` set ys)"
    by (rule card_mono) auto
  also have "\<dots> \<le> card (set ys)"
    by (rule card_image_le) simp
  also have "\<dots> \<le> length ys"
    by (rule card_length)
  finally show ?thesis .
qed

lemma add_to_history_distinct:
  assumes "distinct (map history_id (search_history (db st)))"
  shows "distinct (map history_id (search_history (db (add_to_history st now q))))"
proof (cases "strip q = []")
  case True
  with assms show ?thesis by (simp add: add_to_history_blank)
next
  case False
  show ?thesis
    using distinct_rows_new [OF assms, of now q]
    by (simp only: add_to_history_rows [OF False] distinct_map_filter)
qed

lemma add_to_history_length:
  assumes "distinct (map history_id (search_history (db st)))"
    and "length (search_history (db st)) \<le> 100"
  shows "length (search_history (db (add_to_history st now q))) \<le> 100"
proof (cases "strip q = []")
  case True
  with assms show ?thesis by (simp add: add_to_history_blank)
next
  case False
  have "length (search_history (db (add_to_history st now q)))
      \<le> length (newest_100 (search_history (db st) @ [new_history st now q]))"
    unfolding add_to_history_rows [OF False]
    using distinct_rows_new [OF assms(1), of now q] by (rule length_filter_ids)
  also have "\<dots> \<le> 100"
    by (rule length_newest_100)
  finally show ?thesis .
qed

lemma add_all_to_history_invariant:
  "distinct (map history_id (search_history (db st))) \<Longrightarrow>
   length (search_history (db st)) \<le> 100 \<Longrightarrow>
   distinct (map history_id (search_history (db (add_all_to_history st calls))))
   \<and> length (search_history (db (add_all_to_history st calls))) \<le> 100"
proof (induction calls arbitrary: st)
  case Nil
  then show ?case by simp
next
  case (Cons c calls)
  obtain now q where c: "c = (now, q)" by (cases c)
  show ?case
    unfolding c add_all_to_history.simps
    by (rule Cons.IH) (rule add_to_history_distinct [OF Cons.prems(1)],
        rule add_to_history_length [OF Cons.prems])
qed

lemma sorted_take_drop:
  assumes "sorted (map f xs)" and "x \<in> set (take n xs)" and "y \<in> set (drop n xs)"
  shows "f x \<le> f y"
proof -
  have "sorted (map f (take n xs) @ map f (drop n xs))"
    using assms(1) by (simp only: map_append [symmetric] append_take_drop_id)
  then show ?thesis
    using assms(2,3) by (auto simp add: sorted_append)
qed

lemma newest_100_prunes_oldest:
  assumes "k \<in> set (newest_100 rows)" and "r \<in> set rows" and "r \<notin> set (newest_100 rows)"
  shows "searched_at r \<le> searched_at k"
proof -
  let ?s = "sort_key (\<lambda>r. - searched_at r) rows"
  have t: "newest_100 rows = take 100 ?s"
    by (simp add: newest_100_def sql_limit_def order_by_desc_def)
  have "set (take 100 ?s) \<union> set (drop 100 ?s) = set ?s"
    by (simp only: set_append [symmetric] append_take_drop_id)
  moreover have "r \<in> set ?s"
    using assms(2) by simp
  ultimately have "r \<in> set (drop 100 ?s)"
    using assms(3) unfolding t by blast
  moreover have "sorted (map (\<lambda>r. - searched_at r) ?s)"
    by (rule sorted_sort_key)
  ultimately have "- searched_at k \<le> - searched_at r"
    using assms(1) unfolding t by (intro sorted_take_drop [where f = "\<lambda>r. - searched_at r"])
  then show ?thesis by simp
qed

lemma add_to_history_keeps_newest:
  assumes "distinct (map history_id (search_history (db st)))" and "strip q \<noteq> []"
  shows "set (search_history (db (add_to_history st now q))) =
      set (newest_100 (search_history (db st) @ [new_history st now q]))"
proof -
  let ?rows = "search_history (db st) @ [new_history st now q]"
  have inj: "inj_on history_id (set ?rows)"
    using distinct_rows_new [OF assms(1), of now q] by (simp only: distinct_map)
  have sub: "set (newest_100 ?rows) \<subseteq> set ?rows"
    by (rule set_newest_100)
  have "(r \<in> set ?rows \<and> history_id r \<in> history_id ` set (newest_100 ?rows))
      = (r \<in> set (newest_100 ?rows))" for r
    using inj sub by (auto simp add: inj_on_def)
  then show ?thesis
    unfolding add_to_history_rows [OF assms(2)] set_filter by blast
qed

lemma length_newest_100_eq: "length (newest_100 rows) = min (length rows) 100"
  by (simp add: newest_100_def sql_limit_def order_by_desc_def)

lemma add_to_history_count:
  assumes "distinct (map history_id (search_history (db st)))" and "strip q \<noteq> []"
  shows "length (search_history (db (add_to_history st now q)))
    = min (length (search_history (db st)) + 1) 100"
proof -
  let ?rows = "search_history (db st) @ [new_history st now q]"
  let ?after = "search_history (db (add_to_history st now q))"
  have d: "distinct (map history_id ?rows)"
    using assms(1) by (rule distinct_rows_new)
  then have dr: "distinct ?rows"
    by (simp only: distinct_map)
  have da: "distinct ?after"
    unfolding add_to_history_rows [OF assms(2)] using dr by (rule distinct_filter)
  have "distinct (sort_key (\<lambda>r. - searched_at r) ?rows)"
    using dr by simp
  then have dn: "distinct (newest_100 ?rows)"
    by (simp add: newest_100_def order_by_desc_def distinct_sql_limit)
  have "length ?after = card (set ?after)"
    using da by (simp only: distinct_card)
  also have "\<dots> = card (set (newest_100 ?rows))"
    by (simp only: add_to_history_keeps_newest [OF assms])
  also have "\<dots> = length (newest_100 ?rows)"
    using dn by (rule distinct_card)
  finally show ?thesis
    by (simp add: length_newest_100_eq)
qed

lemma get_history_rows:
  "fst (get_history st lim) = Inr rows \<Longrightarrow>
   rows = map (\<lambda>r. (history_query r, searched_at r))
            (sql_limit (case lim of None \<Rightarrow> 20 | Some n \<Rightarrow> n)
               (order_by_desc searched_at (search_history (db st))))"
  by (auto simp add: get_history_def Let_def split: if_splits)

lemma get_history_returns:
  "sqlite_int n \<Longrightarrow>
   fst (get_history st (Some n)) =
     Inr (map (\<lambda>r. (history_query r, searched_at r))
            (sql_limit n (order_by_desc searched_at (search_history (db st)))))"
  by (simp add: get_history_def)

lemma get_history_default:
  "fst (get_history st None) =
     Inr (map (\<lambda>r. (history_query r, searched_at r))
            (sql_limit 20 (order_by_desc searched_at (search_history (db st)))))"
  by (simp add: get_history_def sqlite_int_def)

lemma get_history_newest_first:
  assumes "fst (get_history st lim) = Inr rows"
  shows "sorted_wrt (\<lambda>a b. snd b \<le> snd a) rows"
proof -
  let ?s = "sort_key (\<lambda>r. - searched_at r) (search_history (db st))"
  let ?n = "case lim of None \<Rightarrow> 20 | Some n \<Rightarrow> n"
  have "sorted (map (\<lambda>r. - searched_at r) ?s)"
    by (rule sorted_sort_key)
  then have "sorted (map (\<lambda>r. - searched_at r) (sql_limit ?n ?s))"
    by (simp only: map_sql_limit sorted_sql_limit)
  then show ?thesis
    by (simp add: get_history_rows [OF assms] order_by_desc_def sorted_wrt_map sorted_map)
qed

lemma get_history_length:
  "fst (get_history st lim) = Inr rows \<Longrightarrow> length rows \<le> length (search_history (db st))"
  by (drule get_history_rows) (simp add: sql_limit_def order_by_desc_def)

lemma get_history_limit:
  "fst (get_history st (Some n)) = Inr rows \<Longrightarrow> 0 \<le> n \<Longrightarrow> int (length rows) \<le> n"
  by (drule get_history_rows) (simp add: length_sql_limit)

text \<open>
  Claim C5.  Starting from a ledger of at most 100 records (a new database has none),
  after any sequence of \<open>add_to_history\<close> calls the ledger has at most 100 records;
  an insertion keeps exactly the 100 newest by timestamp, so every record it drops is
  no newer than any record it keeps, whatever the order among equal timestamps;
  \<open>get_history(n)\<close> returns a list for every
  \<open>n\<close> that SQLite can hold as an integer (and for the default, 20); what it returns
  is ordered newest first and has at most 100 records, at most \<open>min(n, 100)\<close> for
  every \<open>n\<close> that is not negative; and \<open>add_to_history\<close> changes nothing for a
  query that is blank after trimming.
\<close>

theorem history_capped:
  assumes "distinct (map history_id (search_history (db st0)))"
    and "length (search_history (db st0)) \<le> 100"
    and "st = add_all_to_history st0 calls"
  shows "length (search_history (db st)) \<le> 100
    \<and> (strip q \<noteq> [] \<longrightarrow>
         set (search_history (db (add_to_history st now q)))
           \<subseteq> set (search_history (db st) @ [new_history st now q])
       \<and> length (search_history (db (add_to_history st now q)))
           = min (length (search_history (db st)) + 1) 100
       \<and> (\<forall>k \<in> set (search_history (db (add_to_history st now q))).
            \<forall>r \<in> set (search_history (db st) @ [new_history st now q]).
              r \<in> set (search_history (db (add_to_history st now q)))
              \<or> searched_at r \<le> searched_at k))
    \<and> (sqlite_int n \<longrightarrow> (\<exists>rows. fst (get_history st (Some n)) = Inr rows))
    \<and> (\<exists>rows. fst (get_history st None) = Inr rows \<and> length rows \<le> min 20 100)
    \<and> (\<forall>rows. fst (get_history st (Some n)) = Inr rows \<and> 0 \<le> n
          \<longrightarrow> int (length rows) \<le> min n 100)
    \<and> (\<forall>rows. fst (get_history st lim) = Inr rows
          \<longrightarrow> length rows \<le> 100 \<and> sorted_wrt (\<lambda>a b. snd b \<le> snd a) rows)
    \<and> (strip q = [] \<longrightarrow> add_to_history st now q = st)"
proof -
  have inv: "distinct (map history_id (search_history (db st)))"
    "length (search_history (db st)) \<le> 100"
    using add_all_to_history_invariant [OF assms(1,2), of calls] by (simp_all add: assms(3))
  have keep: "set (search_history (db (add_to_history st now q))) =
      set (newest_100 (search_history (db st) @ [new_history st now q]))" if "strip q \<noteq> []"
    using inv(1) that by (rule add_to_history_keeps_newest)
  have prune: "r \<in> set (search_history (db (add_to_history st now q)))
      \<or> searched_at r \<le> searched_at k"
    if "strip q \<noteq> []" and "k \<in> set (search_history (db (add_to_history st now q)))"
      and "r \<in> set (search_history (db st) @ [new_history st now q])" for k r
    using newest_100_prunes_oldest [of k "search_history (db st) @ [new_history st now q]" r]
      that(2,3) unfolding keep [OF that(1)] by blast
  have sub: "set (search_history (db (add_to_history st now q)))
           \<subseteq> set (search_history (db st) @ [new_history st now q])" if "strip q \<noteq> []"
    unfolding keep [OF that] by (rule set_newest_100)
  have cnt: "length (search_history (db (add_to_history st now q)))
           = min (length (search_history (db st)) + 1) 100" if "strip q \<noteq> []"
    using inv(1) that by (rule add_to_history_count)
  have ret: "\<exists>rows. fst (get_history st (Some n)) = Inr rows" if "sqlite_int n"
    using get_history_returns [OF that] by blast
  have dflt: "\<exists>rows. fst (get_history st None) = Inr rows \<and> length rows \<le> min 20 100"
    using get_history_limit [of st 20] get_history_default [of st]
    by (auto simp add: get_history_def sqlite_int_def length_sql_limit sql_limit_def)
  have lim: "int (length rows) \<le> min n 100"
    if "fst (get_history st (Some n)) = Inr rows" and "0 \<le> n" for rows
    using get_history_limit [OF that] get_history_length [OF that(1)] inv(2) by simp
  have len: "length rows \<le> 100 \<and> sorted_wrt (\<lambda>a b. snd b \<le> snd a) rows"
    if "fst (get_history st lim) = Inr rows" for rows
    using get_history_length [OF that] get_history_newest_first [OF that] inv(2) by simp
  show ?thesis
    using inv(2) sub cnt prune ret dflt lim len add_to_history_blank
    by blast
qed

theorem history_capped_witness:
  "distinct (map history_id (search_history (db st_full)))
   \<and> length (search_history (db st_full)) \<le> 100
   \<and> map history_id (search_history (db (add_all_to_history st_full two_calls)))
       = map int [2..<101] @ [101]
   \<and> length (search_history (db (add_all_to_history st_full two_calls))) \<le> 100
   \<and> sqlite_int 2
   \<and> fst (get_history (add_all_to_history st_full two_calls) (Some 2))
       = Inr [(''new'', 200), (''q'', 100)]
   \<and> strip blank_query = []
   \<and> add_to_history (add_all_to_history st_full two_calls) 9 blank_query
       = add_all_to_history st_full two_calls"
proof -
  have a: "distinct (map history_id (search_history (db st_full)))"
    by code_simp
  have b: "length (search_history (db st_full)) \<le> 100"
    by code_simp
  have c: "map history_id (search_history (db (add_all_to_history st_full two_calls)))
       = map int [2..<101] @ [101]"
    by code_simp
  have d: "fst (get_history (add_all_to_history st_full two_calls) (Some 2))
       = Inr [(''new'', 200), (''q'', 100)]"
    by code_simp
  have e: "strip blank_query = []"
    by code_simp
  have f: "sqlite_int 2"
    by (simp add: sqlite_int_def)
  show ?thesis
    using history_capped [OF a b refl, of two_calls blank_query 9 2 "Some 2"] a b c d e f
    by simp
qed

section \<open>Properties of the ingestion\<close>

lemma sniffed_file_exists:
  "fst (is_encrypted_bgl files p) \<Longrightarrow> path_exists files p"
  by (auto simp add: is_encrypted_bgl_def open_read_def path_exists_def
      split: option.splits node.splits)

lemma verdict_encrypted:
  "verdict r = Encrypted reason \<or> verdict r = LikelyEncrypted reason \<Longrightarrow> r = (True, reason)"
  by (cases r) (auto simp add: verdict_def split: if_splits)

text \<open>
  Claim C3.  When the sniffer classifies the file as Encrypted or LikelyEncrypted with
  some reason, \<open>import_bgl\<close> fails with the encryption-detected message that holds
  this reason (for a path without the \<open>.bgl\<close> extension it has failed one step
  earlier, on the extension); the decoder is not called, and the database, the active
  dictionary and the file system are unchanged: the state differs only in the
  record of the call.
\<close>

theorem encrypted_file_rejected:
  assumes "verdict (is_encrypted_bgl (fs st) (abspath env path)) = Encrypted reason
         \<or> verdict (is_encrypted_bgl (fs st) (abspath env path)) = LikelyEncrypted reason"
  shows "(endswith (str_lower env (abspath env path)) ''.bgl'' \<longrightarrow>
           fst (import_bgl env st path) = (False, encryption_detected reason))
       \<and> (\<not> endswith (str_lower env (abspath env path)) ''.bgl'' \<longrightarrow>
           fst (import_bgl env st path) =
             (False, ''File must have .bgl extension (case-insensitive check)''))
       \<and> snd (import_bgl env st path) = st\<lparr> import_calls := import_calls st @ [path] \<rparr>
       \<and> db (snd (import_bgl env st path)) = db st
       \<and> fs (snd (import_bgl env st path)) = fs st
       \<and> current_dict_id (snd (import_bgl env st path)) = current_dict_id st
       \<and> decoder_calls (snd (import_bgl env st path)) = decoder_calls st"
proof -
  have r: "is_encrypted_bgl (fs st) (abspath env path) = (True, reason)"
    using assms by (rule verdict_encrypted)
  then have e: "path_exists (fs st) (abspath env path)"
    using sniffed_file_exists [of "fs st" "abspath env path"] by simp
  show ?thesis
    using r e by (simp add: import_bgl_def Let_def)
qed

theorem encrypted_file_rejected_witness:
  "verdict (is_encrypted_bgl (fs st_demo) (abspath env_demo ''/dicts/locked.bgl''))
      = Encrypted msg_encrypted
   \<and> endswith (str_lower env_demo (abspath env_demo ''/dicts/locked.bgl'')) ''.bgl''
   \<and> fst (import_bgl env_demo st_demo ''/dicts/locked.bgl'') = (False, encryption_detected msg_encrypted)
   \<and> db (snd (import_bgl env_demo st_demo ''/dicts/locked.bgl'')) = db st_demo
   \<and> decoder_calls (snd (import_bgl env_demo st_demo ''/dicts/locked.bgl'')) = []"
proof -
  have a: "verdict (is_encrypted_bgl (fs st_demo) (abspath env_demo ''/dicts/locked.bgl''))
      = Encrypted msg_encrypted"
    by code_simp
  have b: "endswith (str_lower env_demo (abspath env_demo ''/dicts/locked.bgl'')) ''.bgl''"
    by code_simp
  have c: "decoder_calls st_demo = []"
    by (simp add: st_demo_def new_manager_def)
  show ?thesis
    using encrypted_file_rejected [of st_demo env_demo "''/dicts/locked.bgl''" msg_encrypted] a b c
    by simp
qed


lemma derive_name_map:
  "derive_name p = map (\<lambda>c. if c \<in> separator_chars then CHR ''_'' else c) (path_stem p)"
  by (simp add: derive_name_def replace_char_def separator_chars_def)

lemma find_replaced:
  "find (\<lambda>r. dictionary_name r = name)
     (filter (\<lambda>r. dictionary_name r \<noteq> name) ds @ [new_dictionary d name path n])
   = Some (new_dictionary d name path n)"
  by (induction ds) (simp_all add: new_dictionary_def)

lemma fold_insert_entry_other:
  "dictionaries (fold (insert_entry i) cleaned d) = dictionaries d
   \<and> search_history (fold (insert_entry i) cleaned d) = search_history d
   \<and> favorites (fold (insert_entry i) cleaned d) = favorites d"
  by (induction cleaned arbitrary: d) (simp_all add: insert_entry_def Let_def)

lemma fold_insert_entry_entries:
  "map (\<lambda>e. (entry_dictionary_id e, entry_word e, entry_defn e))
       (entries (fold (insert_entry i) cleaned d))
   = map (\<lambda>e. (entry_dictionary_id e, entry_word e, entry_defn e)) (entries d)
     @ map (\<lambda>wd. (i, fst wd, snd wd)) cleaned"
  by (induction cleaned arbitrary: d) (simp_all add: insert_entry_def Let_def)

lemma store_dictionary_result:
  "store_dictionary d name path cleaned =
     Some (dictionary_id (new_dictionary d name path (length cleaned)),
           fold (insert_entry (dictionary_id (new_dictionary d name path (length cleaned)))) cleaned
             (d\<lparr> dictionaries := filter (\<lambda>r. dictionary_name r \<noteq> name) (dictionaries d)
                     @ [new_dictionary d name path (length cleaned)],
                seq_dictionaries := dictionary_id (new_dictionary d name path (length cleaned)),
                entries := filter (\<lambda>e. entry_dictionary_id e
                     \<noteq> dictionary_id (new_dictionary d name path (length cleaned))) (entries d) \<rparr>))"
proof -
  have f: "find (\<lambda>r. dictionary_name r = name)
     (filter (\<lambda>r. dictionary_name r \<noteq> name) (dictionaries d)
        @ [\<lparr> dictionary_id = next_rowid (seq_dictionaries d) (map dictionary_id (dictionaries d)),
             dictionary_name = name, source_path = path, word_count = int (length cleaned),
             is_encrypted = False \<rparr>])
     = Some (new_dictionary d name path (length cleaned))"
    using find_replaced [of name "dictionaries d" d path "length cleaned"]
    by (simp add: new_dictionary_def)
  show ?thesis
    by (simp add: store_dictionary_def Let_def f) (simp add: new_dictionary_def)
qed

lemma store_dictionary_dictionaries:
  "store_dictionary d name path cleaned = Some (i, d') \<Longrightarrow>
   i = dictionary_id (new_dictionary d name path (length cleaned))
   \<and> dictionaries d' = filter (\<lambda>r. dictionary_name r \<noteq> name) (dictionaries d)
        @ [new_dictionary d name path (length cleaned)]"
  by (auto simp add: store_dictionary_result fold_insert_entry_other)

lemma store_dictionary_entries:
  "store_dictionary d name path cleaned = Some (i, d') \<Longrightarrow>
   map (\<lambda>e. (entry_dictionary_id e, entry_word e, entry_defn e)) (entries d')
   = map (\<lambda>e. (entry_dictionary_id e, entry_word e, entry_defn e))
       (filter (\<lambda>e. entry_dictionary_id e \<noteq> i) (entries d))
     @ map (\<lambda>wd. (i, fst wd, snd wd)) cleaned"
  by (auto simp add: store_dictionary_result fold_insert_entry_entries)

lemma entries_of_dictionary:
  "map (\<lambda>e. (entry_word e, entry_defn e)) (filter (\<lambda>e. entry_dictionary_id e = i) es)
   = map snd (filter (\<lambda>t. fst t = i)
       (map (\<lambda>e. (entry_dictionary_id e, entry_word e, entry_defn e)) es))"
  by (induction es) simp_all

lemma store_dictionary_active_entries:
  assumes "store_dictionary d name path cleaned = Some (i, d')"
  shows "map (\<lambda>e. (entry_word e, entry_defn e))
           (filter (\<lambda>e. entry_dictionary_id e = i) (entries d')) = cleaned"
proof -
  have old: "filter (\<lambda>t. fst t = i)
      (map (\<lambda>e. (entry_dictionary_id e, entry_word e, entry_defn e))
         (filter (\<lambda>e. entry_dictionary_id e \<noteq> i) (entries d))) = []"
    by (simp add: filter_map comp_def filter_empty_conv)
  have new: "map snd (filter (\<lambda>t. fst t = i) (map (\<lambda>wd. (i, fst wd, snd wd)) cleaned)) = cleaned"
    by (simp add: filter_map comp_def)
  show ?thesis
    unfolding entries_of_dictionary store_dictionary_entries [OF assms]
    by (simp only: filter_append old new map_append append_Nil list.map)
qed

lemma import_decoded_success:
  assumes "import_decoded st name p raw = ((True, msg), st')"
  shows "clean_entries (collect_entries raw) \<noteq> []
    \<and> msg = imported_message (length (clean_entries (collect_entries raw))) name
    \<and> store_dictionary (db st) name p (clean_entries (collect_entries raw))
        = Some (the (current_dict_id st'), db st')
    \<and> current_dict_id st' \<noteq> None
    \<and> fs st' = fs st"
  using assms
  by (auto simp add: import_decoded_def Let_def split: if_splits option.splits)

lemma import_bgl_success:
  assumes "import_bgl env st path = ((True, msg), st')"
  shows "decoded_entries env st path \<noteq> []
    \<and> msg = imported_message (length (decoded_entries env st path)) (derive_name (abspath env path))
    \<and> store_dictionary (db st) (derive_name (abspath env path)) (decoded_path env st path)
          (decoded_entries env st path)
        = Some (the (current_dict_id st'), db st')
    \<and> current_dict_id st' \<noteq> None"
proof -
  obtain p files where n: "normalize_extension env (fs st) (abspath env path) = (p, files)"
    by (cases "normalize_extension env (fs st) (abspath env path)")
  obtain raw where dec: "decoder env (files p) = Decoded raw None"
    and imp: "import_decoded (st\<lparr> import_calls := import_calls st @ [path], fs := files,
                 decoder_calls := decoder_calls st @ [p] \<rparr>)
               (derive_name (abspath env path)) p raw = ((True, msg), st')"
    using assms n
    by (auto simp add: import_bgl_def import_clear_def Let_def
        split: if_splits prod.splits decoder_outcome.splits option.splits)
  have e: "decoded_entries env st path = clean_entries (collect_entries raw)"
    by (simp add: decoded_entries_def n dec)
  have q: "decoded_path env st path = p"
    by (simp add: decoded_path_def n)
  show ?thesis
    using import_decoded_success [OF imp] by (simp add: e q)
qed

text \<open>
  Claim C9.  When \<open>import_bgl\<close> succeeds, the dictionary name is the stem of the
  file's base name with every space, \<open>.\<close> and \<open>-\<close> replaced by \<open>_\<close>
  (\<open>farsi-basic.bgl\<close> gives \<open>farsi_basic\<close>); the dictionary row of that name, the only
  one, is the active dictionary, holds the entry count and owns exactly the cleaned
  entries; and the message returned holds the entry count and the name.
\<close>

theorem import_success_name_active_message:
  assumes "import_bgl env st path = ((True, msg), st')"
  shows "derive_name (abspath env path) =
           map (\<lambda>c. if c \<in> separator_chars then CHR ''_'' else c) (path_stem (abspath env path))
    \<and> derive_name ''/dicts/farsi-basic.bgl'' = ''farsi_basic''
    \<and> decoded_entries env st path \<noteq> []
    \<and> msg = check_mark @ '' Imported '' @ thousands (length (decoded_entries env st path))
            @ '' entries from '' @ apostrophe @ derive_name (abspath env path) @ apostrophe
    \<and> (\<exists>row \<in> set (dictionaries (db st')).
          current_dict_id st' = Some (dictionary_id row)
        \<and> dictionary_name row = derive_name (abspath env path)
        \<and> word_count row = int (length (decoded_entries env st path))
        \<and> source_path row = decoded_path env st path
        \<and> \<not> is_encrypted row
        \<and> map (\<lambda>e. (entry_word e, entry_defn e))
              (filter (\<lambda>e. entry_dictionary_id e = dictionary_id row) (entries (db st')))
            = decoded_entries env st path)
    \<and> length (filter (\<lambda>r. dictionary_name r = derive_name (abspath env path))
                (dictionaries (db st'))) = 1"
proof -
  let ?name = "derive_name (abspath env path)"
  let ?row = "new_dictionary (db st) ?name (decoded_path env st path)
                (length (decoded_entries env st path))"
  note s = import_bgl_success [OF assms]
  from s obtain i where i: "current_dict_id st' = Some i"
    by auto
  have st: "store_dictionary (db st) ?name (decoded_path env st path) (decoded_entries env st path)
      = Some (i, db st')"
    using s i by simp
  note d = store_dictionary_dictionaries [OF st]
  have row: "?row \<in> set (dictionaries (db st'))"
    by (simp add: d)
  have ents: "map (\<lambda>e. (entry_word e, entry_defn e))
              (filter (\<lambda>e. entry_dictionary_id e = dictionary_id ?row) (entries (db st')))
            = decoded_entries env st path"
    using store_dictionary_active_entries [OF st] d by simp
  have props: "current_dict_id st' = Some (dictionary_id ?row) \<and> dictionary_name ?row = ?name
      \<and> word_count ?row = int (length (decoded_entries env st path))
      \<and> source_path ?row = decoded_path env st path \<and> \<not> is_encrypted ?row"
    using d i by (simp add: new_dictionary_def)
  have one: "length (filter (\<lambda>r. dictionary_name r = ?name) (dictionaries (db st'))) = 1"
    by (simp add: d new_dictionary_def)
  have ex: "derive_name ''/dicts/farsi-basic.bgl'' = ''farsi_basic''"
    by code_simp
  show ?thesis
    using s row props ents one ex
    by (auto simp add: derive_name_map imported_message_def)
qed

theorem import_success_name_active_message_witness:
  "import_bgl env_demo st_demo ''/dicts/farsi-basic.bgl''
     = ((True, check_mark @ '' Imported 2 entries from '' @ apostrophe @ ''farsi_basic'' @ apostrophe),
        snd (import_bgl env_demo st_demo ''/dicts/farsi-basic.bgl''))
   \<and> current_dict_id (snd (import_bgl env_demo st_demo ''/dicts/farsi-basic.bgl'')) = Some 1
   \<and> map dictionary_name (dictionaries (db (snd (import_bgl env_demo st_demo ''/dicts/farsi-basic.bgl''))))
       = [''farsi_basic'']
   \<and> decoded_entries env_demo st_demo ''/dicts/farsi-basic.bgl''
       = [(''cat'', ''an animal''), (''dog'', ''another animal'')]"
proof -
  have a: "fst (import_bgl env_demo st_demo ''/dicts/farsi-basic.bgl'')
     = (True, check_mark @ '' Imported 2 entries from '' @ apostrophe @ ''farsi_basic'' @ apostrophe)"
    by code_simp
  have b: "current_dict_id (snd (import_bgl env_demo st_demo ''/dicts/farsi-basic.bgl'')) = Some 1"
    by code_simp
  have c: "map dictionary_name
      (dictionaries (db (snd (import_bgl env_demo st_demo ''/dicts/farsi-basic.bgl''))))
       = [''farsi_basic'']"
    by code_simp
  have d: "decoded_entries env_demo st_demo ''/dicts/farsi-basic.bgl''
       = [(''cat'', ''an animal''), (''dog'', ''another animal'')]"
    by code_simp
  have e: "import_bgl env_demo st_demo ''/dicts/farsi-basic.bgl''
     = ((True, check_mark @ '' Imported 2 entries from '' @ apostrophe @ ''farsi_basic'' @ apostrophe),
        snd (import_bgl env_demo st_demo ''/dicts/farsi-basic.bgl''))"
    using a by (simp add: prod_eq_iff)
  show ?thesis
    using import_success_name_active_message [OF e] b c d e
    by simp
qed

text \<open>
  Claim C1, evaluated.  Importing the same file twice: the first import creates
  dictionary 1 with two entries; the second succeeds too, replaces the dictionary row by
  a row with the new id 2, deletes the entries of id 2 (there are none) and inserts the
  two entries again, so the two entries of id 1 stay in the table, owned by no
  dictionary.  The dictionary name, its word count and the result of a search are the
  same after both imports.
\<close>

theorem reimport_leaves_old_entries:
  "map (\<lambda>r. (dictionary_id r, dictionary_name r, word_count r))
        (dictionaries (db st_imported)) = [(1, ''farsi_basic'', 2)]
   \<and> map (\<lambda>e. (entry_dictionary_id e, entry_word e)) (entries (db st_imported))
       = [(1, ''cat''), (1, ''dog'')]
   \<and> fst (search env_demo st_imported ''c'' (Some 20)) = Inr [(''cat'', ''an animal'')]
   \<and> fst (fst (import_bgl env_demo st_imported ''/dicts/farsi-basic.bgl''))
   \<and> map (\<lambda>r. (dictionary_id r, dictionary_name r, word_count r))
        (dictionaries (db st_reimported)) = [(2, ''farsi_basic'', 2)]
   \<and> map (\<lambda>e. (entry_dictionary_id e, entry_word e)) (entries (db st_reimported))
       = [(1, ''cat''), (1, ''dog''), (2, ''cat''), (2, ''dog'')]
   \<and> fst (search env_demo st_reimported ''c'' (Some 20)) = Inr [(''cat'', ''an animal'')]"
  by code_simp

section \<open>Properties of the directory scanner\<close>

lemma import_decoded_calls:
  "import_calls (snd (import_decoded st name p raw)) = import_calls st"
  by (simp add: import_decoded_def Let_def split: option.splits prod.splits)

lemma import_clear_calls:
  "import_calls (snd (import_clear env st p)) = import_calls st"
  by (simp add: import_clear_def Let_def import_decoded_calls
      split: prod.splits decoder_outcome.splits option.splits)

lemma import_bgl_calls:
  "import_calls (snd (import_bgl env st p)) = import_calls st @ [p]"
  by (simp add: import_bgl_def Let_def import_clear_calls split: prod.splits)

lemma scan_files_acc:
  "scan_files env ex files st rs =
     (rs @ fst (scan_files env ex files st []), snd (scan_files env ex files st []))"
proof (induction files arbitrary: st rs)
  case Nil
  show ?case by simp
next
  case (Cons f files)
  show ?case
  proof (cases "absolute env f \<in> set ex")
    case True
    then show ?thesis
      using Cons.IH [of st "rs @ [skip_record f]"] Cons.IH [of st "[skip_record f]"]
      by simp
  next
    case False
    obtain r st' where i: "import_bgl env st f = (r, st')"
      by (cases "import_bgl env st f")
    show ?thesis
      using False i Cons.IH [of st' "rs @ [import_record f r]"]
        Cons.IH [of st' "[import_record f r]"]
      by simp
  qed
qed

lemma scan_files_Cons:
  "scan_files env ex (f # files) st [] =
     (if absolute env f \<in> set ex
      then (skip_record f # fst (scan_files env ex files st []),
            snd (scan_files env ex files st []))
      else (import_record f (fst (import_bgl env st f))
              # fst (scan_files env ex files (snd (import_bgl env st f)) []),
            snd (scan_files env ex files (snd (import_bgl env st f)) [])))"
  using scan_files_acc [of env ex files st "[skip_record f]"]
    scan_files_acc [of env ex files "snd (import_bgl env st f)"
      "[import_record f (fst (import_bgl env st f))]"]
  by (simp add: split_beta)

lemma scan_files_length: "length (fst (scan_files env ex files st [])) = length files"
  by (induction files arbitrary: st) (simp_all add: scan_files_Cons del: scan_files.simps(2))

lemma scan_files_calls:
  "import_calls (snd (scan_files env ex files st [])) =
     import_calls st @ filter (\<lambda>f. absolute env f \<notin> set ex) files"
  by (induction files arbitrary: st)
    (simp_all add: scan_files_Cons import_bgl_calls del: scan_files.simps(2))

lemma scan_files_nth:
  "i < length files \<Longrightarrow>
   fst (scan_files env ex files st []) ! i =
     (if absolute env (files ! i) \<in> set ex then skip_record (files ! i)
      else import_record (files ! i)
             (fst (import_bgl env (state_before env ex files st i) (files ! i))))"
proof (induction files arbitrary: st i)
  case Nil
  then show ?case by simp
next
  case (Cons f files)
  show ?case
  proof (cases i)
    case 0
    then show ?thesis
      by (simp add: scan_files_Cons state_before_def del: scan_files.simps(2))
  next
    case (Suc j)
    with Cons.prems have j: "j < length files" by simp
    show ?thesis
      using Cons.IH [OF j]
      by (simp add: Suc scan_files_Cons state_before_def del: scan_files.simps(2))
  qed
qed

text \<open>
  Claim C8.  \<open>scan_and_import\<close> returns the single error record, and changes
  nothing, when the directory does not exist.  On a directory with eligible files it
  returns one record per file, in order, whatever the imports return.  The record of a
  file whose absolute path is among the source paths recorded when the scan starts is
  the skip record; the record of any other file holds the outcome of \<open>import_bgl\<close>
  on that file, in the state the scan has reached: the status is \<open>success\<close> when
  the import returned \<open>True\<close> and \<open>error\<close> when it returned \<open>False\<close>, and the
  message is the import's message.  \<open>import_bgl\<close> is called for the files that are
  not skipped, once each and in order, and for no other.
\<close>

theorem scan_and_import_records:
  "(\<not> path_exists (fs st) directory \<longrightarrow>
      scan_and_import env st directory =
        (Inr [\<lparr> file_key = None, status = ''error'',
                message = ''Directory not found: '' @ directory \<rparr>], st))
   \<and> (fs st directory = Some (Directory children)
        \<and> files = filter (eligible env (fs st)) children \<and> files \<noteq> []
        \<and> existing = map source_path (dictionaries (db st)) \<longrightarrow>
       (\<exists>results st'.
          scan_and_import env st directory = (Inr results, st')
        \<and> length results = length files
        \<and> (\<forall>i < length files.
              (status (results ! i) = ''skip'') = (absolute env (files ! i) \<in> set existing)
            \<and> (absolute env (files ! i) \<in> set existing \<longrightarrow>
                 results ! i =
                   \<lparr> file_key = Some (path_name (files ! i)), status = ''skip'',
                     message = ''Already imported'' \<rparr>)
            \<and> (absolute env (files ! i) \<notin> set existing \<longrightarrow>
                 (\<exists>success msg.
                    fst (import_bgl env (state_before env existing files st i) (files ! i))
                      = (success, msg)
                  \<and> results ! i =
                      \<lparr> file_key = Some (path_name (files ! i)),
                        status = (if success then ''success'' else ''error''),
                        message = msg \<rparr>)))
        \<and> import_calls st' =
            import_calls st @ filter (\<lambda>f. absolute env f \<notin> set existing) files))"
proof -
  have a: "scan_and_import env st directory =
        (Inr [\<lparr> file_key = None, status = ''error'',
                message = ''Directory not found: '' @ directory \<rparr>], st)"
    if "\<not> path_exists (fs st) directory"
    using that by (simp add: scan_and_import_def)
  have b: "\<exists>results st'.
          scan_and_import env st directory = (Inr results, st')
        \<and> length results = length files
        \<and> (\<forall>i < length files.
              (status (results ! i) = ''skip'') = (absolute env (files ! i) \<in> set existing)
            \<and> (absolute env (files ! i) \<in> set existing \<longrightarrow>
                 results ! i =
                   \<lparr> file_key = Some (path_name (files ! i)), status = ''skip'',
                     message = ''Already imported'' \<rparr>)
            \<and> (absolute env (files ! i) \<notin> set existing \<longrightarrow>
                 (\<exists>success msg.
                    fst (import_bgl env (state_before env existing files st i) (files ! i))
                      = (success, msg)
                  \<and> results ! i =
                      \<lparr> file_key = Some (path_name (files ! i)),
                        status = (if success then ''success'' else ''error''),
                        message = msg \<rparr>)))
        \<and> import_calls st' =
            import_calls st @ filter (\<lambda>f. absolute env f \<notin> set existing) files"
    if d: "fs st directory = Some (Directory children)"
      and f: "files = filter (eligible env (fs st)) children" and n: "files \<noteq> []"
      and e: "existing = map source_path (dictionaries (db st))"
  proof -
    let ?results = "fst (scan_files env existing files st [])"
    let ?st' = "snd (scan_files env existing files st [])"
    have s: "scan_and_import env st directory = (Inr ?results, ?st')"
      using d n unfolding f e
      by (simp add: scan_and_import_def path_exists_def iterdir_def Let_def split_beta)
    have nth: "?results ! i =
                (if absolute env (files ! i) \<in> set existing then skip_record (files ! i)
                 else import_record (files ! i)
                        (fst (import_bgl env (state_before env existing files st i) (files ! i))))"
      if "i < length files" for i
      using that by (rule scan_files_nth)
    have skip: "(status (?results ! i) = ''skip'') = (absolute env (files ! i) \<in> set existing)"
      and skipped: "absolute env (files ! i) \<in> set existing \<Longrightarrow>
                 ?results ! i =
                   \<lparr> file_key = Some (path_name (files ! i)), status = ''skip'',
                     message = ''Already imported'' \<rparr>"
      and imported: "absolute env (files ! i) \<notin> set existing \<Longrightarrow>
                 (\<exists>success msg.
                    fst (import_bgl env (state_before env existing files st i) (files ! i))
                      = (success, msg)
                  \<and> ?results ! i =
                      \<lparr> file_key = Some (path_name (files ! i)),
                        status = (if success then ''success'' else ''error''),
                        message = msg \<rparr>)"
      if "i < length files" for i
      using nth [OF that]
      by (simp_all add: skip_record_def import_record_def prod_eq_iff)
    show ?thesis
      using s scan_files_length [of env existing files st]
        scan_files_calls [of env existing files st] skip skipped imported
      by blast
  qed
  show ?thesis
    using a b by blast
qed

theorem scan_and_import_records_witness:
  "\<not> path_exists (fs st_demo) ''/nowhere''
   \<and> scan_and_import env_demo st_demo ''/nowhere'' =
       (Inr [\<lparr> file_key = None, status = ''error'',
               message = ''Directory not found: /nowhere'' \<rparr>], st_demo)
   \<and> fs st_demo ''/dicts'' = Some (Directory (demo_files @ [''/dicts/notes.txt'']))
   \<and> filter (eligible env_demo (fs st_demo)) (demo_files @ [''/dicts/notes.txt'']) = demo_files
   \<and> demo_files \<noteq> []
   \<and> map source_path (dictionaries (db st_demo)) = []
   \<and> fst (scan_and_import env_demo st_demo ''/dicts'') =
       Inr [\<lparr> file_key = Some ''locked.bgl'', status = ''error'',
               message = encryption_detected msg_encrypted \<rparr>,
            \<lparr> file_key = Some ''farsi-basic.bgl'', status = ''success'',
               message = imported_message 2 ''farsi_basic'' \<rparr>]
   \<and> import_calls st_scanned = demo_files
   \<and> fs st_scanned ''/dicts'' = Some (Directory (demo_files @ [''/dicts/notes.txt'']))
   \<and> filter (eligible env_demo (fs st_scanned)) (demo_files @ [''/dicts/notes.txt'']) = demo_files
   \<and> map source_path (dictionaries (db st_scanned)) = [''/dicts/farsi-basic.bgl'']
   \<and> fst (scan_and_import env_demo st_scanned ''/dicts'') =
       Inr [\<lparr> file_key = Some ''locked.bgl'', status = ''error'',
               message = encryption_detected msg_encrypted \<rparr>,
            \<lparr> file_key = Some ''farsi-basic.bgl'', status = ''skip'',
               message = ''Already imported'' \<rparr>]
   \<and> import_calls (snd (scan_and_import env_demo st_scanned ''/dicts''))
       = demo_files @ [''/dicts/locked.bgl'']"
proof -
  have a: "\<not> path_exists (fs st_demo) ''/nowhere''"
    by code_simp
  have b: "fs st_demo ''/dicts'' = Some (Directory (demo_files @ [''/dicts/notes.txt'']))"
    by code_simp
  have c: "filter (eligible env_demo (fs st_demo)) (demo_files @ [''/dicts/notes.txt'']) = demo_files"
    by code_simp
  have d: "demo_files \<noteq> []"
    by (simp add: demo_files_def)
  have e: "map source_path (dictionaries (db st_demo)) = []"
    by code_simp
  have f: "fst (scan_and_import env_demo st_demo ''/dicts'') =
       Inr [\<lparr> file_key = Some ''locked.bgl'', status = ''error'',
               message = encryption_detected msg_encrypted \<rparr>,
            \<lparr> file_key = Some ''farsi-basic.bgl'', status = ''success'',
               message = imported_message 2 ''farsi_basic'' \<rparr>]"
    by code_simp
  have g: "import_calls st_scanned = demo_files"
    by code_simp
  have h: "fs st_scanned ''/dicts'' = Some (Directory (demo_files @ [''/dicts/notes.txt'']))"
    by code_simp
  have i: "filter (eligible env_demo (fs st_scanned)) (demo_files @ [''/dicts/notes.txt'']) = demo_files"
    by code_simp
  have j: "map source_path (dictionaries (db st_scanned)) = [''/dicts/farsi-basic.bgl'']"
    by code_simp
  have k: "fst (scan_and_import env_demo st_scanned ''/dicts'') =
       Inr [\<lparr> file_key = Some ''locked.bgl'', status = ''error'',
               message = encryption_detected msg_encrypted \<rparr>,
            \<lparr> file_key = Some ''farsi-basic.bgl'', status = ''skip'',
               message = ''Already imported'' \<rparr>]"
    by code_simp
  have l: "filter (\<lambda>f. absolute env_demo f \<notin> set [''/dicts/farsi-basic.bgl'']) demo_files
      = [''/dicts/locked.bgl'']"
    by code_simp
  have m: "import_calls (snd (scan_and_import env_demo st_scanned ''/dicts''))
       = demo_files @ [''/dicts/locked.bgl'']"
    using scan_and_import_records [of st_scanned "''/dicts''" env_demo
        "demo_files @ [''/dicts/notes.txt'']" demo_files "[''/dicts/farsi-basic.bgl'']"]
      h i d j g l
    by auto
  show ?thesis
    using scan_and_import_records [of st_demo "''/nowhere''" env_demo "[]" "[]" "[]"]
      a b c d e f g h i j k m
    by simp
qed

end
